theory Spec2Isabelle
  imports Complex_Main
begin

section \<open>The page-analytics agent of \<^verbatim>\<open>src/counter.js\<close>\<close>

text \<open>
  The script is one immediately-invoked function whose module-level variables are
  mutated by event handlers. The embedding passes these variables around as the record
  \<open>agent\<close>; every value a handler reads from the browser (clock, location, DOM
  geometry, storage, globals) comes from the record \<open>env\<close>, one snapshot per handler
  invocation.

  JavaScript numbers are IEEE 754 doubles. Millisecond timestamps of
  \<^verbatim>\<open>Date.now()\<close>, their sums and differences, and DOM \<^verbatim>\<open>long\<close> attributes are
  integers far below \<open>2\<^sup>5\<^sup>3\<close>, on which double arithmetic is exact: they are
  \<open>int\<close>. The readings \<^verbatim>\<open>performance.now()\<close> and \<^verbatim>\<open>window.scrollY\<close> are
  doubles with fractions: they are the \<open>real\<close> values of those doubles, and every
  addition, subtraction, multiplication and division on them is rounded to the nearest
  double by \<open>to_double\<close>, as the hardware does.

  All readings of \<^verbatim>\<open>Date.now()\<close> inside one handler get the same value
  (\<^verbatim>\<open>trackEngagement\<close> reads the clock twice, the second time to feed
  \<^verbatim>\<open>accumulatedEngagement\<close> just before it is reset, and \<^verbatim>\<open>handleRouteChange\<close>
  reads it once more when it starts the timer of the new page view). Reads that the
  source guards with \<^verbatim>\<open>try\<close> may throw in the model; every other read (such as
  \<^verbatim>\<open>document.body.scrollHeight\<close>) returns a value.
\<close>

subsection \<open>Values read from the browser\<close>

text \<open>A read that sits inside a \<^verbatim>\<open>try\<close> block of the source either returns or throws.\<close>

datatype 'a attempt = Raised | Returned 'a

text \<open>The JSON-like values a custom-properties object or a hook result can be.\<close>

datatype jsval =
    JUndefined
  | JNull
  | JBool bool
  | JNum int
  | JStr string
  | JObj "(string \<times> jsval) list"

text \<open>
  What \<^verbatim>\<open>window[config.beforeSend]\<close> gives: the property read itself may throw,
  the value may fail the test \<^verbatim>\<open>typeof fn === 'function'\<close>, or it is a function.
  The function is handed the object \<^verbatim>\<open>data.p\<close> itself, not a copy, so it can write
  to it before it returns or throws: applied to the content of that object it gives
  the content it leaves there, and the value it returns or the fact that it threw.
  What the function does to anything but its argument is outside the model.
\<close>

datatype hook = ResolveThrows | NotFunction | Function "jsval \<Rightarrow> jsval \<times> jsval attempt"

record location =
  href :: "string attempt"
  pathname :: string
  hostname :: string

record env =
  date_now :: int
  performance_now :: real
  location :: location
  visibilityState :: string
  scrollY :: real
  innerHeight :: int
  body_scrollHeight :: int
  root_scrollHeight :: int
  referrer :: string
  webdriver :: bool
  cypress :: bool
  localStorage_getItem :: "string \<Rightarrow> string option attempt"
  has_fetch :: bool
  window_global :: "string \<Rightarrow> hook"

subsection \<open>Configuration, payloads and the agent's variables\<close>

text \<open>
  The object built by \<^verbatim>\<open>initConfig\<close>. \<^verbatim>\<open>parseInt\<close> yields a number or NaN
  (\<open>None\<close>); \<^verbatim>\<open>getAttribute\<close> yields a string or null. \<open>customProps\<close> is the
  object as \<^verbatim>\<open>getCustomProps\<close> builds it (or null); since a hook can write to that
  object later, its current content is kept with the agent's variables.
\<close>

record config =
  endpoint :: string
  siteId :: "int option"
  uniqueId :: "string option"
  logging :: bool
  customProps :: "(string \<times> string) list option"
  beforeSend :: "string option"

text \<open>
  The object handed to \<^verbatim>\<open>JSON.stringify\<close>. The keys of the source are single
  letters; the fields carry the prefix \<open>pl_\<close>. A key that is absent is \<open>None\<close> for
  \<open>pl_p\<close>, \<open>pl_sd\<close>, \<open>pl_e\<close>, \<open>pl_h\<close> and \<open>pl_tt\<close>; for \<open>pl_hu\<close>, \<open>pl_i\<close> and
  \<open>pl_r\<close>, which are always present, \<open>None\<close> is the value null (or NaN).
\<close>

record payload =
  pl_n :: string
  pl_u :: string
  pl_hu :: "string option"
  pl_i :: "int option"
  pl_r :: "string option"
  pl_p :: "jsval option"
  pl_sd :: "int option"
  pl_e :: "int option"
  pl_h :: "int option"
  pl_tt :: "int option"

text \<open>One call of \<^verbatim>\<open>fetch\<close>: the URL and the object serialised as its body.\<close>

record request =
  req_url :: string
  req_body :: payload

text \<open>
  The variables of lines 7 to 21, the flag \<^verbatim>\<open>ticking\<close> of the scroll listener's
  closure, \<open>liveProps\<close>, the current content of the object \<^verbatim>\<open>config.customProps\<close>
  (\<open>None\<close> when \<^verbatim>\<open>config.customProps\<close> is null), and \<open>fetched\<close>, the calls of
  \<^verbatim>\<open>fetch\<close> made so far, oldest first. \<^verbatim>\<open>config\<close> is assigned once, by
  \<^verbatim>\<open>init\<close>, before any handler is installed; the handlers below take it as the
  parameter \<open>cfg\<close>.
\<close>

record agent =
  currentPath :: string
  pageviewSent :: bool
  documentHeight :: int
  maxScrollDepth :: real
  engagementStart :: "int option"
  accumulatedEngagement :: int
  engagementTimerActive :: bool
  engagementSent :: bool
  pageLoadTime :: real
  ticking :: bool
  liveProps :: "jsval option"
  fetched :: "request list"

definition initial :: "real \<Rightarrow> agent" where
  "initial t0 =
     \<lparr>currentPath = [], pageviewSent = False, documentHeight = 0, maxScrollDepth = 0,
      engagementStart = None, accumulatedEngagement = 0, engagementTimerActive = False,
      engagementSent = False, pageLoadTime = t0, ticking = False, liveProps = None,
      fetched = []\<rparr>"

subsection \<open>Double arithmetic\<close>

text \<open>
  An arithmetic operation on doubles returns the double nearest to the exact result,
  ties going to the even significand. For \<open>x\<close> in the binade \<open>2\<^sup>e \<le> x < 2\<^sup>e\<^sup>+\<^sup>1\<close> the
  doubles are the multiples of \<open>2\<^sup>e\<^sup>-\<^sup>5\<^sup>2\<close>; the exponent of a double lies between
  -1022 and 1023, below that range the spacing stays \<open>2\<^sup>-\<^sup>1\<^sup>0\<^sup>7\<^sup>4\<close>. Results of magnitude
  \<open>2\<^sup>1\<^sup>0\<^sup>2\<^sup>4\<close> and more (Infinity) and NaN do not arise from pixel and millisecond
  quantities and are outside the model.
\<close>

definition round_half_even :: "real \<Rightarrow> int" where
  "round_half_even q =
     (let f = \<lfloor>q\<rfloor>; r = q - of_int f
      in if r < 1 / 2 then f else if 1 / 2 < r then f + 1 else if even f then f else f + 1)"

fun exponent_up :: "nat \<Rightarrow> real \<Rightarrow> int" where
  "exponent_up 0 x = 0"
| "exponent_up (Suc n) x = (if x < 2 then 0 else exponent_up n (x / 2) + 1)"

fun exponent_down :: "nat \<Rightarrow> real \<Rightarrow> int" where
  "exponent_down 0 x = 0"
| "exponent_down (Suc n) x = (if 1 \<le> x then 0 else exponent_down n (2 * x) - 1)"

definition binade :: "real \<Rightarrow> int" where
  "binade x = (if 1 \<le> x then exponent_up 1023 x else exponent_down 1022 x)"

definition to_double :: "real \<Rightarrow> real" where
  "to_double x =
     (if x = 0 then 0
      else (let ulp = 2 powi (binade \<bar>x\<bar> - 52)
            in sgn x * of_int (round_half_even (\<bar>x\<bar> / ulp)) * ulp))"

subsection \<open>Scroll tracking\<close>

definition getCurrentUrl :: "env \<Rightarrow> string" where
  "getCurrentUrl ev = (case href (location ev) of Raised \<Rightarrow> [] | Returned l \<Rightarrow> l)"

definition getDocumentHeight :: "env \<Rightarrow> int" where
  "getDocumentHeight ev = max (body_scrollHeight ev) (root_scrollHeight ev)"

definition getCurrentScrollDepth :: "env \<Rightarrow> agent \<Rightarrow> real" where
  "getCurrentScrollDepth ev s =
     min (to_double (scrollY ev + of_int (innerHeight ev))) (of_int (documentHeight s))"

text \<open>
  \<^verbatim>\<open>Math.round\<close> gives the integer nearest to the double it is applied to, halves
  going upwards.
\<close>

definition js_round :: "real \<Rightarrow> int" where
  "js_round x = \<lfloor>x + 1 / 2\<rfloor>"

definition getScrollPercentage :: "agent \<Rightarrow> int" where
  "getScrollPercentage s =
     (if documentHeight s = 0 then 0
      else min (js_round
                  (to_double (to_double (maxScrollDepth s / of_int (documentHeight s)) * 100)))
             100)"

definition resetScrollTracking :: "env \<Rightarrow> agent \<Rightarrow> agent" where
  "resetScrollTracking ev s =
     (let s1 = s\<lparr>documentHeight := getDocumentHeight ev\<rparr>
      in s1\<lparr>maxScrollDepth := getCurrentScrollDepth ev s1\<rparr>)"

text \<open>
  The scroll listener (lines 95 to 104): a scroll event schedules one animation frame
  unless one is pending; the frame's callback samples the depth.
\<close>

definition on_scroll :: "agent \<Rightarrow> agent" where
  "on_scroll s = (if \<not> ticking s then s\<lparr>ticking := True\<rparr> else s)"

definition on_frame :: "env \<Rightarrow> agent \<Rightarrow> agent" where
  "on_frame ev s =
     (if ticking s then
        (let depth = getCurrentScrollDepth ev s;
             s1 = (if depth > maxScrollDepth s then s\<lparr>maxScrollDepth := depth\<rparr> else s)
         in s1\<lparr>ticking := False\<rparr>)
      else s)"

definition poll_height :: "env \<Rightarrow> agent \<Rightarrow> agent" where
  "poll_height ev s = s\<lparr>documentHeight := getDocumentHeight ev\<rparr>"

text \<open>
  The load listener (lines 106 to 115) polls the height once and registers an interval
  whose closure holds \<^verbatim>\<open>attempts\<close>. \<open>repoll\<close> is that closure together with what
  the browser knows of the interval: its delay, and whether \<^verbatim>\<open>clearInterval\<close> has
  been called on it. The browser never runs the callback of a cleared interval.
\<close>

record repoll =
  attempts :: int
  delay_ms :: nat
  cleared :: bool

definition on_load :: "env \<Rightarrow> agent \<Rightarrow> agent \<times> repoll" where
  "on_load ev s = (poll_height ev s, \<lparr>attempts = 10, delay_ms = 300, cleared = False\<rparr>)"

definition interval_callback :: "env \<Rightarrow> agent \<times> repoll \<Rightarrow> agent \<times> repoll" where
  "interval_callback ev sr =
     (let s1 = poll_height ev (fst sr);
          a = attempts (snd sr) - 1
      in (s1, (snd sr)\<lparr>attempts := a, cleared := (a \<le> 0)\<rparr>))"

text \<open>
  The interval firing once per element of the list; the number returned counts the
  runs of the callback.
\<close>

fun interval_fires :: "env list \<Rightarrow> agent \<times> repoll \<Rightarrow> (agent \<times> repoll) \<times> nat" where
  "interval_fires [] sr = (sr, 0)"
| "interval_fires (ev # evs) sr =
     (if cleared (snd sr) then (sr, 0)
      else (let res = interval_fires evs (interval_callback ev sr)
            in (fst res, Suc (snd res))))"

subsection \<open>Engagement tracking\<close>

text \<open>In arithmetic, \<^verbatim>\<open>null\<close> converts to 0.\<close>

definition to_number :: "int option \<Rightarrow> int" where
  "to_number v = (case v of None \<Rightarrow> 0 | Some k \<Rightarrow> k)"

definition startEngagement :: "env \<Rightarrow> agent \<Rightarrow> agent" where
  "startEngagement ev s =
     (if \<not> engagementTimerActive s
      then s\<lparr>engagementStart := Some (date_now ev), engagementTimerActive := True\<rparr>
      else s)"

definition pauseEngagement :: "env \<Rightarrow> agent \<Rightarrow> agent" where
  "pauseEngagement ev s =
     (if engagementTimerActive s
      then s\<lparr>accumulatedEngagement :=
                accumulatedEngagement s + (date_now ev - to_number (engagementStart s)),
             engagementTimerActive := False\<rparr>
      else s)"

definition getEngagementTime :: "env \<Rightarrow> agent \<Rightarrow> int" where
  "getEngagementTime ev s =
     accumulatedEngagement s +
       (if engagementTimerActive s then date_now ev - to_number (engagementStart s) else 0)"

definition resetEngagementTracking :: "agent \<Rightarrow> agent" where
  "resetEngagementTracking s =
     s\<lparr>engagementStart := None, accumulatedEngagement := 0, engagementTimerActive := False\<rparr>"

definition handleVisibilityChange :: "env \<Rightarrow> agent \<Rightarrow> agent" where
  "handleVisibilityChange ev s =
     (if visibilityState ev = ''visible'' then startEngagement ev s else pauseEngagement ev s)"

subsection \<open>Sending events\<close>

definition is_digit :: "char \<Rightarrow> bool" where
  "is_digit c = (c \<in> set ''0123456789'')"

text \<open>
  The tail \<^verbatim>\<open>(\.\d+){0,2}\.\d+$\<close> of the host-name pattern: between one and
  three groups, each a dot followed by at least one digit, up to the end of the string.
  \<open>k\<close> counts the groups begun, \<open>d\<close> says that the current group has a digit.
\<close>

fun dotted_groups :: "nat \<Rightarrow> bool \<Rightarrow> string \<Rightarrow> bool" where
  "dotted_groups k d [] = (d \<and> k \<le> 3)"
| "dotted_groups k d (c # cs) =
     (if c = CHR ''.'' then (k = 0 \<or> d) \<and> dotted_groups (Suc k) False cs
      else if is_digit c then 0 < k \<and> dotted_groups k True cs
      else False)"

text \<open>\<^verbatim>\<open>/^localhost$|^127(\.\d+){0,2}\.\d+$/.test(h)\<close>\<close>

definition is_loopback :: "string \<Rightarrow> bool" where
  "is_loopback h =
     (h = ''localhost'' \<or> (take 3 h = ''127'' \<and> dotted_groups 0 False (drop 3 h)))"

definition shouldTrack :: "env \<Rightarrow> bool" where
  "shouldTrack ev =
     (if is_loopback (hostname (location ev)) then False
      else if webdriver ev \<or> cypress ev then False
      else (case localStorage_getItem ev ''analytics_ignore'' of
              Raised \<Rightarrow> True
            | Returned v \<Rightarrow> (if v = Some ''true'' then False else True)))"

text \<open>
  Lines 158 to 167. A configured hook name is a non-empty string. When the global is a
  function, \<^verbatim>\<open>data.p\<close> is first set to a new empty object if the key is missing,
  then the function is called on the object \<^verbatim>\<open>data.p\<close>. If it returns,
  \<^verbatim>\<open>data.p\<close> becomes its result; if it throws, \<^verbatim>\<open>data.p\<close> is still that object,
  with whatever the function wrote to it. The second component is the content the
  function left in the object that \<^verbatim>\<open>data.p\<close> referred to on entry, if there was
  one and the function was called.
\<close>

definition apply_beforeSend :: "env \<Rightarrow> string \<Rightarrow> payload \<Rightarrow> payload \<times> jsval option" where
  "apply_beforeSend ev nm data =
     (case window_global ev nm of
        ResolveThrows \<Rightarrow> (data, None)
      | NotFunction \<Rightarrow> (data, None)
      | Function fn \<Rightarrow>
          (let arg = (case pl_p data of None \<Rightarrow> JObj [] | Some v \<Rightarrow> v);
               left = fst (fn arg);
               written = (case pl_p data of None \<Rightarrow> None | Some v \<Rightarrow> Some left)
           in case snd (fn arg) of
                Raised \<Rightarrow> (data\<lparr>pl_p := Some left\<rparr>, written)
              | Returned v \<Rightarrow> (data\<lparr>pl_p := Some v\<rparr>, written)))"

text \<open>
  \<^verbatim>\<open>sendRequest\<close> is only ever called by \<^verbatim>\<open>trackEvent\<close> and without a callback,
  so the promise handlers of lines 175 and 176 do nothing. There \<^verbatim>\<open>data.p\<close>, when
  present, is the object \<^verbatim>\<open>config.customProps\<close> itself (line 197; the spread of
  lines 203 to 207 copies the reference), so what the hook writes to its argument it
  writes to \<^verbatim>\<open>config.customProps\<close>.
\<close>

definition sendRequest :: "env \<Rightarrow> config option \<Rightarrow> payload \<Rightarrow> agent \<Rightarrow> agent" where
  "sendRequest ev c data s =
     (case c of
        None \<Rightarrow> s
      | Some cfg \<Rightarrow>
          if \<not> has_fetch ev then s
          else if \<not> shouldTrack ev then s
          else
            (let hooked = (case beforeSend cfg of
                             None \<Rightarrow> (data, None)
                           | Some nm \<Rightarrow>
                               if nm \<noteq> [] then apply_beforeSend ev nm data else (data, None));
                 s1 = (case snd hooked of None \<Rightarrow> s | Some obj \<Rightarrow> s\<lparr>liveProps := Some obj\<rparr>)
             in s1\<lparr>fetched := fetched s1 @ [\<lparr>req_url = endpoint cfg, req_body = fst hooked\<rparr>]\<rparr>))"

record base =
  b_u :: string
  b_hu :: "string option"
  b_i :: "int option"
  b_r :: "string option"
  b_p :: "jsval option"

definition basePayload :: "config \<Rightarrow> env \<Rightarrow> agent \<Rightarrow> base" where
  "basePayload cfg ev s =
     \<lparr>b_u = getCurrentUrl ev,
      b_hu = uniqueId cfg,
      b_i = siteId cfg,
      b_r = (if referrer ev = [] then None else Some (referrer ev)),
      b_p = liveProps s\<rparr>"

text \<open>The second argument of \<^verbatim>\<open>trackEvent\<close>: the empty object, or the four engagement fields.\<close>

record props =
  prop_sd :: int
  prop_e :: int
  prop_h :: int
  prop_tt :: int

definition trackEvent :: "config \<Rightarrow> env \<Rightarrow> string \<Rightarrow> props option \<Rightarrow> agent \<Rightarrow> agent" where
  "trackEvent cfg ev name pr s =
     (let b = basePayload cfg ev s
      in sendRequest ev (Some cfg)
           \<lparr>pl_n = name, pl_u = b_u b, pl_hu = b_hu b, pl_i = b_i b, pl_r = b_r b,
            pl_p = b_p b,
            pl_sd = map_option prop_sd pr, pl_e = map_option prop_e pr,
            pl_h = map_option prop_h pr, pl_tt = map_option prop_tt pr\<rparr> s)"

definition trackPageview :: "config \<Rightarrow> env \<Rightarrow> agent \<Rightarrow> agent" where
  "trackPageview cfg ev s =
     (let s1 = resetScrollTracking ev s;
          s2 = resetEngagementTracking s1;
          s3 = startEngagement ev s2;
          s4 = trackEvent cfg ev ''pageview'' None s3
      in s4\<lparr>pageviewSent := True, engagementSent := False\<rparr>)"

definition trackEngagement :: "config \<Rightarrow> env \<Rightarrow> agent \<Rightarrow> agent" where
  "trackEngagement cfg ev s =
     (if \<not> pageviewSent s \<or> engagementSent s then s
      else
        (let time = getEngagementTime ev s
         in if time < 2000 \<and> maxScrollDepth s = 0 then s
            else
              (let s1 = pauseEngagement ev s;
                   s2 = trackEvent cfg ev ''engagement''
                          (Some \<lparr>prop_sd = getScrollPercentage s1, prop_e = time, prop_h = 1,
                                 prop_tt = js_round
                                   (to_double (performance_now ev - pageLoadTime s1))\<rparr>) s1;
                   s3 = resetEngagementTracking s2
               in s3\<lparr>engagementSent := True\<rparr>)))"

subsection \<open>Navigation\<close>

definition handleRouteChange :: "config \<Rightarrow> env \<Rightarrow> agent \<Rightarrow> agent" where
  "handleRouteChange cfg ev s =
     (let path = pathname (location ev)
      in if path \<noteq> currentPath s then
           (let s1 = (if currentPath s \<noteq> [] then trackEngagement cfg ev s else s);
                s2 = s1\<lparr>currentPath := path\<rparr>;
                s3 = s2\<lparr>pageviewSent := False\<rparr>
            in trackPageview cfg ev s3)
         else s)"

text \<open>
  The original \<^verbatim>\<open>history.pushState\<close> or \<^verbatim>\<open>replaceState\<close>: called without a URL it
  leaves the location alone, with a URL it moves the location there, and it throws on
  a URL the browser rejects. The wrapper of lines 258 to 261 runs it first and
  \<^verbatim>\<open>handleRouteChange\<close> after it.
\<close>

datatype history_arg = NoUrl | Url location | BadUrl

definition history_original :: "env \<Rightarrow> history_arg \<Rightarrow> env attempt" where
  "history_original ev a =
     (case a of
        NoUrl \<Rightarrow> Returned ev
      | Url l \<Rightarrow> Returned (ev\<lparr>location := l\<rparr>)
      | BadUrl \<Rightarrow> Raised)"

definition wrapped_history :: "config \<Rightarrow> env \<Rightarrow> history_arg \<Rightarrow> agent \<Rightarrow> agent" where
  "wrapped_history cfg ev a s =
     (case history_original ev a of
        Raised \<Rightarrow> s
      | Returned ev1 \<Rightarrow> handleRouteChange cfg ev1 s)"

subsection \<open>The installed listeners\<close>

text \<open>
  One constructor per listener of \<^verbatim>\<open>setupNavigation\<close>, \<^verbatim>\<open>setupScrollTracking\<close> and
  \<^verbatim>\<open>init\<close>. \<open>PopState\<close> stands for the three events bound to
  \<^verbatim>\<open>handleRouteChange\<close>, \<open>Unload\<close> for \<^verbatim>\<open>beforeunload\<close> and \<^verbatim>\<open>pagehide\<close>,
  \<open>HeightPoll\<close> for the load listener and each run of its interval callback.
\<close>

datatype signal =
    PopState
  | HistoryCall history_arg
  | PageShow bool
  | Unload
  | VisibilityChange
  | Focus
  | Blur
  | Scroll
  | AnimationFrame
  | HeightPoll

fun step :: "config \<Rightarrow> env \<times> signal \<Rightarrow> agent \<Rightarrow> agent" where
  "step cfg (ev, PopState) s = handleRouteChange cfg ev s"
| "step cfg (ev, HistoryCall a) s = wrapped_history cfg ev a s"
| "step cfg (ev, PageShow persisted) s = (if persisted then handleRouteChange cfg ev s else s)"
| "step cfg (ev, Unload) s = trackEngagement cfg ev s"
| "step cfg (ev, VisibilityChange) s = handleVisibilityChange ev s"
| "step cfg (ev, Focus) s = startEngagement ev s"
| "step cfg (ev, Blur) s = pauseEngagement ev s"
| "step cfg (ev, Scroll) s = on_scroll s"
| "step cfg (ev, AnimationFrame) s = on_frame ev s"
| "step cfg (ev, HeightPoll) s = poll_height ev s"

fun run :: "config \<Rightarrow> (env \<times> signal) list \<Rightarrow> agent \<Rightarrow> agent" where
  "run cfg [] s = s"
| "run cfg (x # xs) s = run cfg xs (step cfg x s)"

text \<open>
  \<^verbatim>\<open>init\<close>, after the configuration is read and the listeners are installed;
  reading the configuration creates the custom-properties object, each attribute value
  a string.
\<close>

definition props_object :: "(string \<times> string) list \<Rightarrow> jsval" where
  "props_object kvs = JObj (map (\<lambda>kv. (fst kv, JStr (snd kv))) kvs)"

definition init :: "config \<Rightarrow> env \<Rightarrow> real \<Rightarrow> agent" where
  "init cfg ev t0 =
     (let s0 = (initial t0)\<lparr>liveProps := map_option props_object (customProps cfg)\<rparr>;
          s = handleRouteChange cfg ev s0
      in if visibilityState ev = ''visible'' then startEngagement ev s else s)"

section \<open>Vocabulary of the properties\<close>

subsection \<open>Observing the accumulator\<close>

text \<open>
  A call sequence on the accumulator, each call with the browser state it runs in;
  \<open>Read\<close> is a call of \<^verbatim>\<open>getEngagementTime\<close>, whose results \<open>readings\<close> collects.
\<close>

datatype acc_call = Start | Pause | Read

fun readings :: "(env \<times> acc_call) list \<Rightarrow> agent \<Rightarrow> int list" where
  "readings [] s = []"
| "readings ((ev, Start) # cs) s = readings cs (startEngagement ev s)"
| "readings ((ev, Pause) # cs) s = readings cs (pauseEngagement ev s)"
| "readings ((ev, Read) # cs) s = getEngagementTime ev s # readings cs s"

text \<open>A running timer was started no later than \<open>t\<close>; the engaged time as of \<open>t\<close>.\<close>

definition started_by :: "int \<Rightarrow> agent \<Rightarrow> bool" where
  "started_by t s = (\<not> engagementTimerActive s \<or> to_number (engagementStart s) \<le> t)"

definition engaged_at :: "int \<Rightarrow> agent \<Rightarrow> int" where
  "engaged_at t s =
     accumulatedEngagement s +
       (if engagementTimerActive s then t - to_number (engagementStart s) else 0)"

subsection \<open>Observing the network\<close>

text \<open>The requests made on the way from state \<open>s\<close> to state \<open>s'\<close>, and their event names.\<close>

definition since :: "agent \<Rightarrow> agent \<Rightarrow> request list" where
  "since s s' = drop (length (fetched s)) (fetched s')"

definition names :: "request list \<Rightarrow> string list" where
  "names rs = map (\<lambda>rq. pl_n (req_body rq)) rs"

text \<open>No signal of the sequence changes \<^verbatim>\<open>currentPath\<close>.\<close>

fun stable :: "config \<Rightarrow> (env \<times> signal) list \<Rightarrow> agent \<Rightarrow> bool" where
  "stable cfg [] s = True"
| "stable cfg (x # xs) s =
     (currentPath (step cfg x s) = currentPath s \<and> stable cfg xs (step cfg x s))"

text \<open>How many engagement reports the current page view may still send.\<close>

definition budget :: "agent \<Rightarrow> nat" where
  "budget s = (if pageviewSent s \<and> \<not> engagementSent s then 1 else 0)"

text \<open>
  What one call of \<^verbatim>\<open>trackEvent\<close> puts on the network and what it leaves in the
  custom-properties object: both depend on the state only through the content \<open>lp\<close> of
  that object.
\<close>

definition emitted ::
    "config \<Rightarrow> env \<Rightarrow> string \<Rightarrow> props option \<Rightarrow> jsval option \<Rightarrow> request list" where
  "emitted cfg ev name pr lp = fetched (trackEvent cfg ev name pr ((initial 0)\<lparr>liveProps := lp\<rparr>))"

definition props_after :: "config \<Rightarrow> env \<Rightarrow> jsval option \<Rightarrow> jsval option" where
  "props_after cfg ev lp = liveProps (trackEvent cfg ev [] None ((initial 0)\<lparr>liveProps := lp\<rparr>))"





text \<open>
  The host names the pattern of line 180 is meant to describe: a non-empty string of
  digits, and groups of them each led by a dot.
\<close>

definition digits :: "string \<Rightarrow> bool" where
  "digits g = (g \<noteq> [] \<and> list_all is_digit g)"

definition dotted :: "string list \<Rightarrow> string" where
  "dotted gs = concat (map (\<lambda>g. CHR ''.'' # g) gs)"

text \<open>
  Geometry as browsers report it: scroll heights are not negative, and the bottom edge
  of the viewport is not above the top of the document. \<open>scroll_ok\<close> is what this
  gives for the agent's scroll variables.
\<close>

definition geometry_ok :: "env \<Rightarrow> bool" where
  "geometry_ok ev =
     (0 \<le> scrollY ev + of_int (innerHeight ev)
      \<and> 0 \<le> body_scrollHeight ev \<and> 0 \<le> root_scrollHeight ev)"

definition scroll_ok :: "agent \<Rightarrow> bool" where
  "scroll_ok s = (0 \<le> maxScrollDepth s \<and> 0 \<le> documentHeight s)"

subsection \<open>A concrete page\<close>

definition ex_cfg :: config where
  "ex_cfg =
     \<lparr>endpoint = ''https://collect.example/api/event'', siteId = Some 7,
      uniqueId = Some ''u-1'', logging = True, customProps = None, beforeSend = None\<rparr>"

definition ex_loc :: "string \<Rightarrow> location" where
  "ex_loc path =
     \<lparr>href = Returned (''https://site.example'' @ path), pathname = path,
      hostname = ''site.example''\<rparr>"

text \<open>
  A visible page of height 2000 at time \<open>t\<close> on path \<open>path\<close>, with a viewport of
  height \<open>vh\<close> scrolled to the top, tracking allowed and no hook defined.
\<close>

definition ex_env :: "int \<Rightarrow> string \<Rightarrow> int \<Rightarrow> env" where
  "ex_env t path vh =
     \<lparr>date_now = t, performance_now = of_int t, location = ex_loc path,
      visibilityState = ''visible'', scrollY = 0, innerHeight = vh,
      body_scrollHeight = 2000, root_scrollHeight = 1500, referrer = [],
      webdriver = False, cypress = False, localStorage_getItem = (\<lambda>k. Returned None),
      has_fetch = True, window_global = (\<lambda>k. NotFunction)\<rparr>"

text \<open>
  The pageview payload of that page before any hook runs, a hook that throws at once,
  and a hook that marks its argument and then throws.
\<close>

definition ex_data :: payload where
  "ex_data =
     \<lparr>pl_n = ''pageview'', pl_u = ''https://site.example/a'', pl_hu = Some ''u-1'',
      pl_i = Some 7, pl_r = None, pl_p = None, pl_sd = None, pl_e = None, pl_h = None,
      pl_tt = None\<rparr>"



text \<open>The agent right after \<^verbatim>\<open>init\<close> on that page at time 1000, the script having started at time 0.\<close>

definition ex_opened :: "int \<Rightarrow> agent" where
  "ex_opened vh = init ex_cfg (ex_env 1000 ''/a'' vh) 0"

text \<open>
  Signals arriving on that page: the window loses focus, the page is hidden, a
  navigation event reports the same path, the page is hidden again.
\<close>

definition ex_signals :: "(env \<times> signal) list" where
  "ex_signals =
     [(ex_env 2000 ''/a'' 600, Blur), (ex_env 5000 ''/a'' 600, Unload),
      (ex_env 6000 ''/a'' 600, PopState), (ex_env 7000 ''/a'' 600, Unload)]"

text \<open>The same page served from a development machine.\<close>

definition ex_local :: "int \<Rightarrow> env" where
  "ex_local t =
     (ex_env t ''/a'' 600)
       \<lparr>location := \<lparr>href = Returned ''http://localhost:3000/a'', pathname = ''/a'',
                      hostname = ''localhost''\<rparr>\<rparr>"

section \<open>Verified properties\<close>

subsection \<open>The engagement accumulator\<close>

lemma getEngagementTime_engaged_at: "getEngagementTime ev s = engaged_at (date_now ev) s"
  by (simp add: getEngagementTime_def engaged_at_def)

lemma start_step:
  assumes "started_by t s" and "t \<le> date_now ev"
  shows "started_by (date_now ev) (startEngagement ev s)"
    and "engaged_at t s \<le> engaged_at (date_now ev) (startEngagement ev s)"
  using assms by (auto simp: started_by_def engaged_at_def startEngagement_def to_number_def)

lemma pause_step:
  assumes "started_by t s" and "t \<le> date_now ev"
  shows "started_by (date_now ev) (pauseEngagement ev s)"
    and "engaged_at t s \<le> engaged_at (date_now ev) (pauseEngagement ev s)"
  using assms by (auto simp: started_by_def engaged_at_def pauseEngagement_def)

lemma read_step:
  assumes "started_by t s" and "t \<le> t'"
  shows "started_by t' s" and "engaged_at t s \<le> engaged_at t' s"
  using assms by (auto simp: started_by_def engaged_at_def)

text \<open>
  With a clock that does not run backwards, every later reading is at least the time
  engaged so far; the state is generalised because each call changes it.
\<close>

lemma readings_sorted_from:
  assumes "started_by t s"
    and "sorted (t # map (\<lambda>c. date_now (fst c)) cs)"
  shows "sorted (readings cs s) \<and> (\<forall>x \<in> set (readings cs s). engaged_at t s \<le> x)"
  using assms
proof (induction cs s arbitrary: t rule: readings.induct)
  case (1 s)
  then show ?case by simp
next
  case (2 ev cs s)
  from "2.prems" have le: "t \<le> date_now ev"
    and srt: "sorted (date_now ev # map (\<lambda>c. date_now (fst c)) cs)"
    by auto
  from "2.IH"[OF start_step(1)[OF "2.prems"(1) le] srt] start_step(2)[OF "2.prems"(1) le]
  show ?case by fastforce
next
  case (3 ev cs s)
  from "3.prems" have le: "t \<le> date_now ev"
    and srt: "sorted (date_now ev # map (\<lambda>c. date_now (fst c)) cs)"
    by auto
  from "3.IH"[OF pause_step(1)[OF "3.prems"(1) le] srt] pause_step(2)[OF "3.prems"(1) le]
  show ?case by fastforce
next
  case (4 ev cs s)
  from "4.prems" have le: "t \<le> date_now ev"
    and srt: "sorted (date_now ev # map (\<lambda>c. date_now (fst c)) cs)"
    by auto
  from "4.IH"[OF read_step(1)[OF "4.prems"(1) le] srt] read_step(2)[OF "4.prems"(1) le]
  show ?case by (fastforce simp: getEngagementTime_engaged_at)
qed

lemma startEngagement_twice:
  "startEngagement ev2 (startEngagement ev1 s) = startEngagement ev1 s"
  by (simp add: startEngagement_def)

text \<open>
  Claim C4, as stated: whatever the sequence of \<^verbatim>\<open>startEngagement\<close> and
  \<^verbatim>\<open>pauseEngagement\<close> calls, \<^verbatim>\<open>getEngagementTime\<close> never decreases. It fails
  when the wall clock is set back between calls, since lines 123, 130 and 137 all read
  \<^verbatim>\<open>Date.now()\<close>: after a start at time 5000, readings taken at times 6000, 4000
  and 3000 are 1000, -1000 and -2000.
\<close>

theorem clock_set_back_counterexample:
  "readings
     [(ex_env 5000 ''/a'' 0, Start), (ex_env 6000 ''/a'' 0, Read),
      (ex_env 4000 ''/a'' 0, Read), (ex_env 3000 ''/a'' 0, Read)]
     (resetEngagementTracking (initial 0)) = [1000, - 1000, - 2000]
   \<and> \<not> sorted
      (readings
         [(ex_env 5000 ''/a'' 0, Start), (ex_env 6000 ''/a'' 0, Read),
          (ex_env 4000 ''/a'' 0, Read), (ex_env 3000 ''/a'' 0, Read)]
         (resetEngagementTracking (initial 0)))"
  by (simp add: ex_env_def startEngagement_def getEngagementTime_def
      resetEngagementTracking_def initial_def to_number_def)

text \<open>
  Claim C4, amended. Take any sequence of \<^verbatim>\<open>startEngagement\<close>,
  \<^verbatim>\<open>pauseEngagement\<close> and \<^verbatim>\<open>getEngagementTime\<close> calls on a freshly reset
  accumulator, made at times \<^verbatim>\<open>Date.now()\<close> that do not decrease along the sequence:
  the values returned by \<^verbatim>\<open>getEngagementTime\<close> do not decrease either. A second
  \<^verbatim>\<open>startEngagement\<close> directly after a first one changes nothing, whatever the
  clock shows, so every later reading is the one a single call gives.
\<close>

theorem engagement_time_monotone:
  assumes "sorted (map (\<lambda>c. date_now (fst c)) cs)"
  shows "sorted (readings cs (resetEngagementTracking s))
       \<and> startEngagement ev2 (startEngagement ev1 s') = startEngagement ev1 s'
       \<and> getEngagementTime ev3 (startEngagement ev2 (startEngagement ev1 s'))
           = getEngagementTime ev3 (startEngagement ev1 s')"
proof -
  have "sorted (readings cs (resetEngagementTracking s))"
  proof (cases cs)
    case Nil
    then show ?thesis by simp
  next
    case (Cons c cs')
    have "started_by (date_now (fst c)) (resetEngagementTracking s)"
      by (simp add: started_by_def resetEngagementTracking_def)
    moreover have "sorted (date_now (fst c) # map (\<lambda>c. date_now (fst c)) cs)"
      using assms Cons by simp
    ultimately show ?thesis using readings_sorted_from by blast
  qed
  then show ?thesis by (simp add: startEngagement_twice)
qed

theorem engagement_time_monotone_witness:
  "sorted (map (\<lambda>c. date_now (fst c))
      [(ex_env 1000 ''/a'' 0, Start), (ex_env 1500 ''/a'' 0, Read), (ex_env 2000 ''/a'' 0, Start),
       (ex_env 2500 ''/a'' 0, Read), (ex_env 3000 ''/a'' 0, Pause), (ex_env 9000 ''/a'' 0, Read)])
   \<and> readings
      [(ex_env 1000 ''/a'' 0, Start), (ex_env 1500 ''/a'' 0, Read), (ex_env 2000 ''/a'' 0, Start),
       (ex_env 2500 ''/a'' 0, Read), (ex_env 3000 ''/a'' 0, Pause), (ex_env 9000 ''/a'' 0, Read)]
      (resetEngagementTracking (initial 0)) = [500, 1500, 2000]
   \<and> sorted [500, 1500, 2000 :: int]"
  using engagement_time_monotone
    [of "[(ex_env 1000 ''/a'' 0, Start), (ex_env 1500 ''/a'' 0, Read), (ex_env 2000 ''/a'' 0, Start),
          (ex_env 2500 ''/a'' 0, Read), (ex_env 3000 ''/a'' 0, Pause), (ex_env 9000 ''/a'' 0, Read)]"
        "initial 0"]
  by (simp add: ex_env_def startEngagement_def pauseEngagement_def getEngagementTime_def
      resetEngagementTracking_def initial_def to_number_def)

text \<open>
  Claim C5, as stated: after every accumulator operation the timer is active exactly
  when \<^verbatim>\<open>engagementStart\<close> is set, and \<^verbatim>\<open>pauseEngagement\<close> clears
  \<^verbatim>\<open>engagementStart\<close>. It fails: a start at time 1000 followed by a pause at time
  4000 leaves the timer inactive with \<^verbatim>\<open>engagementStart\<close> still 1000.
\<close>

theorem pause_keeps_start_counterexample:
  "\<not> (engagementTimerActive
         (pauseEngagement (ex_env 4000 ''/a'' 0) (startEngagement (ex_env 1000 ''/a'' 0) (initial 0)))
       \<longleftrightarrow>
       engagementStart
         (pauseEngagement (ex_env 4000 ''/a'' 0) (startEngagement (ex_env 1000 ''/a'' 0) (initial 0)))
       \<noteq> None)"
  by (simp add: pauseEngagement_def startEngagement_def initial_def)

text \<open>
  Claim C5, amended. An active timer always has \<^verbatim>\<open>engagementStart\<close> set: this holds
  initially and is kept by \<^verbatim>\<open>startEngagement\<close>, \<^verbatim>\<open>pauseEngagement\<close> and
  \<^verbatim>\<open>resetEngagementTracking\<close>. After a start and after a reset the converse holds
  too. \<^verbatim>\<open>pauseEngagement\<close> on an active timer adds the time since
  \<^verbatim>\<open>engagementStart\<close> to \<^verbatim>\<open>accumulatedEngagement\<close> and deactivates the timer,
  changing nothing else: \<^verbatim>\<open>engagementStart\<close> keeps its value until the next start
  or reset.
\<close>

theorem accumulator_invariant:
  assumes "engagementTimerActive s \<longrightarrow> engagementStart s \<noteq> None"
  shows "(engagementTimerActive (initial t0) \<longleftrightarrow> engagementStart (initial t0) \<noteq> None)
       \<and> (engagementTimerActive (startEngagement ev s)
            \<longleftrightarrow> engagementStart (startEngagement ev s) \<noteq> None)
       \<and> (engagementTimerActive (resetEngagementTracking s)
            \<longleftrightarrow> engagementStart (resetEngagementTracking s) \<noteq> None)
       \<and> (engagementTimerActive (pauseEngagement ev s)
            \<longrightarrow> engagementStart (pauseEngagement ev s) \<noteq> None)
       \<and> engagementStart (pauseEngagement ev s) = engagementStart s
       \<and> (engagementTimerActive s \<longrightarrow>
            (\<exists>t. engagementStart s = Some t
               \<and> pauseEngagement ev s =
                   s\<lparr>accumulatedEngagement := accumulatedEngagement s + (date_now ev - t),
                     engagementTimerActive := False\<rparr>))"
proof -
  have "engagementTimerActive s \<longrightarrow>
          (\<exists>t. engagementStart s = Some t
             \<and> pauseEngagement ev s =
                 s\<lparr>accumulatedEngagement := accumulatedEngagement s + (date_now ev - t),
                   engagementTimerActive := False\<rparr>)"
    using assms by (auto simp: pauseEngagement_def to_number_def)
  moreover have "engagementStart (pauseEngagement ev s) = engagementStart s"
    by (simp add: pauseEngagement_def)
  moreover have "engagementTimerActive (pauseEngagement ev s)
                   \<longrightarrow> engagementStart (pauseEngagement ev s) \<noteq> None"
    by (simp add: pauseEngagement_def)
  moreover have "engagementTimerActive (startEngagement ev s)
                   \<longleftrightarrow> engagementStart (startEngagement ev s) \<noteq> None"
    using assms by (auto simp: startEngagement_def)
  ultimately show ?thesis
    by (simp add: initial_def resetEngagementTracking_def)
qed

theorem accumulator_invariant_witness:
  "engagementStart (startEngagement (ex_env 1000 ''/a'' 0) (initial 0)) \<noteq> None
   \<and> pauseEngagement (ex_env 4000 ''/a'' 0) (startEngagement (ex_env 1000 ''/a'' 0) (initial 0))
       = (initial 0)\<lparr>engagementStart := Some 1000, accumulatedEngagement := 3000\<rparr>"
  using accumulator_invariant
    [of "startEngagement (ex_env 1000 ''/a'' 0) (initial 0)" 0 "ex_env 4000 ''/a'' 0"]
  by (simp add: startEngagement_def initial_def ex_env_def)

subsection \<open>The dispatcher\<close>

lemma apply_beforeSend_only_p: "(fst (apply_beforeSend ev nm d))\<lparr>pl_p := x\<rparr> = d\<lparr>pl_p := x\<rparr>"
  by (simp add: apply_beforeSend_def Let_def split: hook.splits attempt.splits)

lemma sendRequest_closed: "\<not> shouldTrack ev \<Longrightarrow> sendRequest ev c d s = s"
  by (simp add: sendRequest_def split: option.splits)

lemma sendRequest_shut: "\<not> (has_fetch ev \<and> shouldTrack ev) \<Longrightarrow> sendRequest ev c d s = s"
  by (auto simp: sendRequest_def split: option.splits)

text \<open>
  \<^verbatim>\<open>sendRequest\<close> touches two variables only: the log, to which it appends, and the
  custom-properties object.
\<close>

lemma sendRequest_frame:
  "sendRequest ev c d s =
     s\<lparr>liveProps := liveProps (sendRequest ev c d ((initial 0)\<lparr>liveProps := liveProps s\<rparr>)),
       fetched := fetched s @ fetched (sendRequest ev c d ((initial 0)\<lparr>liveProps := liveProps s\<rparr>))\<rparr>"
  by (simp add: sendRequest_def initial_def Let_def split: option.splits)

lemma sendRequest_props_only_p:
  "pl_p d = pl_p d' \<Longrightarrow>
     liveProps (sendRequest ev c d s) = liveProps (sendRequest ev c d' s)"
  by (simp add: sendRequest_def apply_beforeSend_def Let_def
      split: option.splits hook.splits attempt.splits)

lemma sendRequest_open:
  assumes "has_fetch ev" and "shouldTrack ev"
  shows "\<exists>b. fetched (sendRequest ev (Some cfg) d s) = fetched s @ [\<lparr>req_url = endpoint cfg, req_body = b\<rparr>]
             \<and> b\<lparr>pl_p := pl_p d\<rparr> = d"
proof (cases "beforeSend cfg")
  case None
  with assms show ?thesis by (simp add: sendRequest_def)
next
  case (Some nm)
  show ?thesis
  proof (cases "nm = []")
    case True
    with Some assms show ?thesis by (simp add: sendRequest_def)
  next
    case False
    have "(fst (apply_beforeSend ev nm d))\<lparr>pl_p := pl_p d\<rparr> = d"
      by (simp add: apply_beforeSend_only_p)
    with False Some assms show ?thesis
      by (simp add: sendRequest_def Let_def split: option.splits)
  qed
qed

lemma sendRequest_at_most_one:
  "length (fetched (sendRequest ev c d ((initial 0)\<lparr>liveProps := lp\<rparr>))) \<le> 1
   \<and> (\<forall>rq \<in> set (fetched (sendRequest ev c d ((initial 0)\<lparr>liveProps := lp\<rparr>))).
         (req_body rq)\<lparr>pl_p := pl_p d\<rparr> = d)"
  by (simp add: sendRequest_def initial_def Let_def apply_beforeSend_only_p split: option.splits)

lemma trackEvent_frame:
  "trackEvent cfg ev name pr s =
     s\<lparr>liveProps := props_after cfg ev (liveProps s),
       fetched := fetched s @ emitted cfg ev name pr (liveProps s)\<rparr>"
proof -
  let ?d = "\<lambda>nm q. \<lparr>pl_n = nm, pl_u = getCurrentUrl ev, pl_hu = uniqueId cfg, pl_i = siteId cfg,
              pl_r = (if referrer ev = [] then None else Some (referrer ev)),
              pl_p = liveProps s,
              pl_sd = map_option prop_sd q, pl_e = map_option prop_e q,
              pl_h = map_option prop_h q, pl_tt = map_option prop_tt q\<rparr>"
  let ?s0 = "(initial 0)\<lparr>liveProps := liveProps s\<rparr>"
  have here: "trackEvent cfg ev name pr s = sendRequest ev (Some cfg) (?d name pr) s"
    by (simp add: trackEvent_def basePayload_def Let_def)
  have em: "emitted cfg ev name pr (liveProps s) = fetched (sendRequest ev (Some cfg) (?d name pr) ?s0)"
    by (simp add: emitted_def trackEvent_def basePayload_def Let_def)
  have "props_after cfg ev (liveProps s) = liveProps (sendRequest ev (Some cfg) (?d [] None) ?s0)"
    by (simp add: props_after_def trackEvent_def basePayload_def Let_def)
  moreover have "liveProps (sendRequest ev (Some cfg) (?d [] None) ?s0)
                   = liveProps (sendRequest ev (Some cfg) (?d name pr) ?s0)"
    by (rule sendRequest_props_only_p) simp
  ultimately have pa: "props_after cfg ev (liveProps s)
                      = liveProps (sendRequest ev (Some cfg) (?d name pr) ?s0)"
    by simp
  show ?thesis
    unfolding here em pa by (rule sendRequest_frame)
qed

lemma emitted_at_most_one:
  "length (emitted cfg ev name pr lp) \<le> 1
   \<and> (\<forall>rq \<in> set (emitted cfg ev name pr lp). pl_n (req_body rq) = name)"
proof -
  let ?d = "\<lparr>pl_n = name, pl_u = getCurrentUrl ev, pl_hu = uniqueId cfg, pl_i = siteId cfg,
             pl_r = (if referrer ev = [] then None else Some (referrer ev)),
             pl_p = lp,
             pl_sd = map_option prop_sd pr, pl_e = map_option prop_e pr,
             pl_h = map_option prop_h pr, pl_tt = map_option prop_tt pr\<rparr>"
  have em: "emitted cfg ev name pr lp
              = fetched (sendRequest ev (Some cfg) ?d ((initial 0)\<lparr>liveProps := lp\<rparr>))"
    by (simp add: emitted_def trackEvent_def basePayload_def Let_def)
  have "\<forall>rq \<in> set (emitted cfg ev name pr lp). pl_n (req_body rq) = name"
  proof
    fix rq assume "rq \<in> set (emitted cfg ev name pr lp)"
    with em sendRequest_at_most_one[of ev "Some cfg" ?d lp]
    have "(req_body rq)\<lparr>pl_p := pl_p ?d\<rparr> = ?d" by simp
    then have "pl_n ((req_body rq)\<lparr>pl_p := pl_p ?d\<rparr>) = pl_n ?d" by simp
    then show "pl_n (req_body rq) = name" by simp
  qed
  with em sendRequest_at_most_one[of ev "Some cfg" ?d lp] show ?thesis by simp
qed

lemma emitted_shut: "\<not> (has_fetch ev \<and> shouldTrack ev) \<Longrightarrow> emitted cfg ev name pr lp = []"
  by (simp add: emitted_def trackEvent_def Let_def sendRequest_shut initial_def)

lemma emitted_open:
  assumes "has_fetch ev" and "shouldTrack ev"
  shows "\<exists>b. emitted cfg ev name pr lp = [\<lparr>req_url = endpoint cfg, req_body = b\<rparr>]
           \<and> b\<lparr>pl_p := None\<rparr> =
               \<lparr>pl_n = name, pl_u = getCurrentUrl ev, pl_hu = uniqueId cfg, pl_i = siteId cfg,
                pl_r = (if referrer ev = [] then None else Some (referrer ev)), pl_p = None,
                pl_sd = map_option prop_sd pr, pl_e = map_option prop_e pr,
                pl_h = map_option prop_h pr, pl_tt = map_option prop_tt pr\<rparr>"
proof -
  let ?d = "\<lparr>pl_n = name, pl_u = getCurrentUrl ev, pl_hu = uniqueId cfg, pl_i = siteId cfg,
             pl_r = (if referrer ev = [] then None else Some (referrer ev)),
             pl_p = lp,
             pl_sd = map_option prop_sd pr, pl_e = map_option prop_e pr,
             pl_h = map_option prop_h pr, pl_tt = map_option prop_tt pr\<rparr>"
  let ?s0 = "(initial 0)\<lparr>liveProps := lp\<rparr>"
  have em: "emitted cfg ev name pr lp = fetched (sendRequest ev (Some cfg) ?d ?s0)"
    by (simp add: emitted_def trackEvent_def basePayload_def Let_def)
  from sendRequest_open[OF assms, of cfg ?d ?s0]
  obtain b where b: "fetched (sendRequest ev (Some cfg) ?d ?s0)
                       = fetched ?s0 @ [\<lparr>req_url = endpoint cfg, req_body = b\<rparr>]"
    and bp: "b\<lparr>pl_p := pl_p ?d\<rparr> = ?d" by blast
  from bp have "(b\<lparr>pl_p := pl_p ?d\<rparr>)\<lparr>pl_p := None\<rparr> = ?d\<lparr>pl_p := None\<rparr>" by simp
  then have "b\<lparr>pl_p := None\<rparr> = ?d\<lparr>pl_p := None\<rparr>" by simp
  with em b show ?thesis by (simp add: initial_def)
qed

subsection \<open>The tracking gate\<close>

lemma dot_not_digit: "\<not> is_digit CHR ''.''"
  by (simp add: is_digit_def)

lemma dotted_Cons: "dotted (g # gs) = CHR ''.'' # g @ dotted gs"
  by (simp add: dotted_def)

text \<open>
  The automaton \<open>dotted_groups\<close> in state \<open>(k, d)\<close> accepts the rest \<open>ds\<close> of the
  current group followed by the groups \<open>gs\<close> still to come, and nothing else.
\<close>

lemma dotted_groups_complete:
  assumes "list_all is_digit ds" and "list_all digits gs"
    and "ds \<noteq> [] \<longrightarrow> 0 < k" and "d \<or> ds \<noteq> [] \<or> (k = 0 \<and> gs \<noteq> [])"
    and "k + length gs \<le> 3"
  shows "dotted_groups k d (ds @ dotted gs)"
  using assms
proof (induction ds arbitrary: d)
  case Nil
  then show ?case
  proof (induction gs arbitrary: k d)
    case Nil
    then show ?case by (simp add: dotted_def)
  next
    case (Cons g gs)
    from Cons.prems have gs: "list_all digits gs" and "digits g"
      by simp_all
    then have g: "g \<noteq> []" "list_all is_digit g"
      by (simp_all add: digits_def)
    have inner: "dotted_groups k' d' (g' @ dotted gs)"
      if "list_all is_digit g'" "0 < k'" "d' \<or> g' \<noteq> []" "k' + length gs \<le> 3" for g' k' d'
      using that
    proof (induction g' arbitrary: d')
      case Nil
      with Cons.IH[of k' d'] gs show ?case by simp
    next
      case (Cons c cs)
      then show ?case using dot_not_digit by auto
    qed
    from Cons.prems have "k = 0 \<or> d" and "Suc k + length gs \<le> 3" by auto
    with inner[of g "Suc k" False] g show ?case
      by (simp add: dotted_Cons)
  qed
next
  case (Cons c cs)
  then show ?case using dot_not_digit by auto
qed

lemma dotted_groups_sound:
  assumes "dotted_groups k d s"
  shows "\<exists>ds gs. s = ds @ dotted gs \<and> list_all is_digit ds \<and> list_all digits gs
           \<and> (ds \<noteq> [] \<longrightarrow> 0 < k) \<and> (d \<or> ds \<noteq> [] \<or> (k = 0 \<and> gs \<noteq> []))
           \<and> k + length gs \<le> 3"
  using assms
proof (induction k d s rule: dotted_groups.induct)
  case (1 k d)
  then have "[] = [] @ dotted [] \<and> list_all is_digit [] \<and> list_all digits []
           \<and> (([]::string) \<noteq> [] \<longrightarrow> 0 < k)
           \<and> (d \<or> ([]::string) \<noteq> [] \<or> (k = 0 \<and> ([]::string list) \<noteq> []))
           \<and> k + length ([]::string list) \<le> 3"
    by (simp add: dotted_def)
  then show ?case by blast
next
  case (2 k d c cs)
  show ?case
  proof (cases "c = CHR ''.''")
    case True
    with "2.prems" have start: "k = 0 \<or> d" and rest: "dotted_groups (Suc k) False cs"
      by simp_all
    from "2.IH"(1)[OF True rest]
    obtain ds gs where cs: "cs = ds @ dotted gs" and ds: "list_all is_digit ds"
      and gs: "list_all digits gs" and ne: "ds \<noteq> []" and len: "Suc k + length gs \<le> 3"
      by auto
    have "c # cs = [] @ dotted (ds # gs)"
      by (simp add: True cs dotted_Cons)
    moreover have "list_all digits (ds # gs)"
      using ds gs ne by (simp add: digits_def)
    ultimately have "c # cs = [] @ dotted (ds # gs) \<and> list_all is_digit []
           \<and> list_all digits (ds # gs)
           \<and> (([]::string) \<noteq> [] \<longrightarrow> 0 < k)
           \<and> (d \<or> ([]::string) \<noteq> [] \<or> (k = 0 \<and> ds # gs \<noteq> []))
           \<and> k + length (ds # gs) \<le> 3"
      using start len by auto
    then show ?thesis by blast
  next
    case False
    with "2.prems" have dig: "is_digit c" and pos: "0 < k" and rest: "dotted_groups k True cs"
      by (simp_all split: if_splits)
    from "2.IH"(2)[OF False dig rest]
    obtain ds gs where cs: "cs = ds @ dotted gs" and ds: "list_all is_digit ds"
      and gs: "list_all digits gs" and len: "k + length gs \<le> 3"
      by auto
    have "c # cs = (c # ds) @ dotted gs \<and> list_all is_digit (c # ds) \<and> list_all digits gs
           \<and> (c # ds \<noteq> [] \<longrightarrow> 0 < k) \<and> (d \<or> c # ds \<noteq> [] \<or> (k = 0 \<and> gs \<noteq> []))
           \<and> k + length gs \<le> 3"
      using cs ds gs len dig pos by simp
    then show ?thesis by blast
  qed
qed

lemma dotted_groups_iff:
  "dotted_groups 0 False s \<longleftrightarrow>
     (\<exists>gs. s = dotted gs \<and> list_all digits gs \<and> 1 \<le> length gs \<and> length gs \<le> 3)"
proof
  assume "dotted_groups 0 False s"
  from dotted_groups_sound[OF this]
  obtain ds gs where "s = ds @ dotted gs" "list_all is_digit ds" "list_all digits gs"
    "ds \<noteq> [] \<longrightarrow> (0::nat) < 0" "False \<or> ds \<noteq> [] \<or> ((0::nat) = 0 \<and> gs \<noteq> [])"
    "0 + length gs \<le> 3"
    by blast
  then have "s = dotted gs \<and> list_all digits gs \<and> 1 \<le> length gs \<and> length gs \<le> 3"
    by (cases gs) auto
  then show "\<exists>gs. s = dotted gs \<and> list_all digits gs \<and> 1 \<le> length gs \<and> length gs \<le> 3" ..
next
  assume "\<exists>gs. s = dotted gs \<and> list_all digits gs \<and> 1 \<le> length gs \<and> length gs \<le> 3"
  then obtain gs where "s = dotted gs" "list_all digits gs" "1 \<le> length gs" "length gs \<le> 3"
    by blast
  with dotted_groups_complete[of "[]" gs 0 False] show "dotted_groups 0 False s"
    by (cases gs) auto
qed

lemma is_loopback_iff:
  "is_loopback h \<longleftrightarrow>
     h = ''localhost''
     \<or> (\<exists>gs. h = ''127'' @ dotted gs \<and> list_all digits gs \<and> 1 \<le> length gs \<and> length gs \<le> 3)"
proof -
  have split: "(take 3 h = ''127'' \<and> drop 3 h = r) \<longleftrightarrow> h = ''127'' @ r" for r
  proof
    assume "take 3 h = ''127'' \<and> drop 3 h = r"
    then have "take 3 h @ drop 3 h = ''127'' @ r" by simp
    then show "h = ''127'' @ r" by (simp only: append_take_drop_id)
  next
    assume "h = ''127'' @ r"
    then show "take 3 h = ''127'' \<and> drop 3 h = r" by simp
  qed
  have "(take 3 h = ''127'' \<and> dotted_groups 0 False (drop 3 h)) \<longleftrightarrow>
        (\<exists>gs. h = ''127'' @ dotted gs \<and> list_all digits gs \<and> 1 \<le> length gs \<and> length gs \<le> 3)"
    unfolding dotted_groups_iff using split by blast
  then show ?thesis by (simp add: is_loopback_def)
qed

lemma is_loopback_examples:
  "is_loopback ''127.0.0.1'' \<and> is_loopback ''localhost''
   \<and> \<not> is_loopback ''[::1]'' \<and> \<not> is_loopback ''localhost.''
   \<and> \<not> is_loopback ''app.localhost''"
  by (simp add: is_loopback_def is_digit_def)

lemma shouldTrack_iff:
  "shouldTrack ev \<longleftrightarrow>
     \<not> is_loopback (hostname (location ev)) \<and> \<not> webdriver ev \<and> \<not> cypress ev
     \<and> localStorage_getItem ev ''analytics_ignore'' \<noteq> Returned (Some ''true'')"
  by (auto simp: shouldTrack_def split: attempt.splits)

text \<open>
  Claim C6, as stated: \<^verbatim>\<open>shouldTrack\<close> is false, and no network activity occurs,
  whenever the host name is a loop-back address. It fails for the IPv6 loop-back
  address: on \<^verbatim>\<open>http://[::1]/a\<close> the host name is \<^verbatim>\<open>[::1]\<close>, which the pattern of
  line 180 does not match, so \<^verbatim>\<open>shouldTrack\<close> is true and the pageview is sent.
\<close>

theorem ipv6_loopback_counterexample:
  "shouldTrack
     ((ex_env 1000 ''/a'' 600)
        \<lparr>location := \<lparr>href = Returned ''http://[::1]/a'', pathname = ''/a'', hostname = ''[::1]''\<rparr>\<rparr>)
   \<and> fetched
       (trackEvent ex_cfg
          ((ex_env 1000 ''/a'' 600)
             \<lparr>location := \<lparr>href = Returned ''http://[::1]/a'', pathname = ''/a'',
                            hostname = ''[::1]''\<rparr>\<rparr>)
          ''pageview'' None (initial 0))
       = [\<lparr>req_url = ''https://collect.example/api/event'',
           req_body = ex_data\<lparr>pl_u := ''http://[::1]/a''\<rparr>\<rparr>]"
  by (simp add: shouldTrack_def is_loopback_def trackEvent_def sendRequest_def basePayload_def
      getCurrentUrl_def ex_env_def ex_cfg_def ex_data_def initial_def)

text \<open>
  Claim C6, amended. \<^verbatim>\<open>shouldTrack\<close> is false exactly when the host name matches
  the pattern of line 180, or the webdriver flag or the Cypress global is set, or the
  stored value of \<^verbatim>\<open>analytics_ignore\<close> is the string \<^verbatim>\<open>true\<close>; a read of the
  stored value that throws does not stop tracking. The pattern matches the name
  \<^verbatim>\<open>localhost\<close> and the names made of \<^verbatim>\<open>127\<close> followed by one, two or three groups
  of a dot and at least one digit (such as \<^verbatim>\<open>127.0.0.1\<close>), and no other name: not
  \<^verbatim>\<open>[::1]\<close>, \<^verbatim>\<open>localhost.\<close> or \<^verbatim>\<open>app.localhost\<close>. When \<^verbatim>\<open>shouldTrack\<close> is
  false, \<^verbatim>\<open>sendRequest\<close> and \<^verbatim>\<open>trackEvent\<close> return the state they were
  given: no request is made and nothing else changes.
\<close>

theorem gate_closed_no_network:
  "(shouldTrack ev \<longleftrightarrow>
      \<not> is_loopback (hostname (location ev)) \<and> \<not> webdriver ev \<and> \<not> cypress ev
      \<and> localStorage_getItem ev ''analytics_ignore'' \<noteq> Returned (Some ''true''))
   \<and> (is_loopback h \<longleftrightarrow>
        h = ''localhost''
        \<or> (\<exists>gs. h = ''127'' @ dotted gs \<and> list_all digits gs
                \<and> 1 \<le> length gs \<and> length gs \<le> 3))
   \<and> is_loopback ''127.0.0.1'' \<and> is_loopback ''localhost''
   \<and> \<not> is_loopback ''[::1]'' \<and> \<not> is_loopback ''localhost.''
   \<and> \<not> is_loopback ''app.localhost''
   \<and> (localStorage_getItem ev ''analytics_ignore'' = Raised \<longrightarrow>
        shouldTrack ev = (\<not> is_loopback (hostname (location ev)) \<and> \<not> webdriver ev \<and> \<not> cypress ev))
   \<and> (\<not> shouldTrack ev \<longrightarrow>
        sendRequest ev c data s = s \<and> trackEvent cfg ev name pr s = s
        \<and> fetched (trackEvent cfg ev name pr s) = fetched s)"
proof -
  have "\<not> shouldTrack ev \<longrightarrow> trackEvent cfg ev name pr s = s"
    by (simp add: trackEvent_def Let_def sendRequest_closed)
  moreover have "localStorage_getItem ev ''analytics_ignore'' = Raised \<longrightarrow>
        shouldTrack ev = (\<not> is_loopback (hostname (location ev)) \<and> \<not> webdriver ev \<and> \<not> cypress ev)"
    by (simp add: shouldTrack_iff)
  ultimately show ?thesis
    using shouldTrack_iff[of ev] is_loopback_examples is_loopback_iff[of h]
    by (simp add: sendRequest_closed)
qed

theorem gate_closed_no_network_witness:
  "\<not> shouldTrack ((ex_env 1000 ''/a'' 600)\<lparr>location := (ex_loc ''/a'')\<lparr>hostname := ''127.0.0.1''\<rparr>\<rparr>)
   \<and> trackEvent ex_cfg ((ex_env 1000 ''/a'' 600)\<lparr>location := (ex_loc ''/a'')\<lparr>hostname := ''127.0.0.1''\<rparr>\<rparr>)
        ''pageview'' None (initial 0) = initial 0
   \<and> shouldTrack ((ex_env 1000 ''/a'' 600)\<lparr>localStorage_getItem := (\<lambda>k. Raised)\<rparr>)
   \<and> is_loopback (''127'' @ dotted [''0'', ''1''])"
proof -
  let ?lo = "(ex_env 1000 ''/a'' 600)\<lparr>location := (ex_loc ''/a'')\<lparr>hostname := ''127.0.0.1''\<rparr>\<rparr>"
  let ?st = "(ex_env 1000 ''/a'' 600)\<lparr>localStorage_getItem := (\<lambda>k. Raised)\<rparr>"
  note at_lo = gate_closed_no_network
    [where ev = ?lo and h = "''127'' @ dotted [''0'', ''1'']" and c = None and data = ex_data
       and s = "initial 0" and cfg = ex_cfg and name = "''pageview''" and pr = None]
  note at_st = gate_closed_no_network
    [where ev = ?st and h = "''127'' @ dotted [''0'', ''1'']" and c = None and data = ex_data
       and s = "initial 0" and cfg = ex_cfg and name = "''pageview''" and pr = None]
  have host: "hostname (location ?lo) = ''127.0.0.1''"
    by simp
  from at_lo have closed: "\<not> shouldTrack ?lo"
    by (simp only: host simp_thms)
  with at_lo have quiet: "trackEvent ex_cfg ?lo ''pageview'' None (initial 0) = initial 0"
    by blast
  have "\<not> is_loopback (hostname (location ?st))" "\<not> webdriver ?st" "\<not> cypress ?st"
    "localStorage_getItem ?st ''analytics_ignore'' = Raised"
    by (simp_all add: is_loopback_def ex_env_def ex_loc_def)
  with at_st have allowed: "shouldTrack ?st"
    by blast
  have "list_all digits [''0'', ''1''] \<and> 1 \<le> length [''0'', ''1''] \<and> length [''0'', ''1''] \<le> 3"
    by (simp add: digits_def is_digit_def)
  then have "\<exists>gs. ''127'' @ dotted [''0'', ''1''] = ''127'' @ dotted gs \<and> list_all digits gs
                \<and> 1 \<le> length gs \<and> length gs \<le> 3"
    by blast
  with at_lo have "is_loopback (''127'' @ dotted [''0'', ''1''])"
    by blast
  with closed quiet allowed show ?thesis by simp
qed

subsection \<open>The payload-transform hook\<close>




subsection \<open>The height re-polling interval\<close>

lemma interval_fires_cleared: "cleared (snd sr) \<Longrightarrow> interval_fires evs sr = (sr, 0)"
  by (cases evs) simp_all

text \<open>
  An interval with \<open>k\<close> attempts left runs its callback once per firing until \<open>k\<close>
  runs are done; the closure is generalised because \<^verbatim>\<open>attempts\<close> drops with each run.
\<close>

lemma interval_fires_count:
  assumes "\<not> cleared r" and "attempts r = int k" and "0 < k"
  shows "snd (interval_fires evs (a, r)) = min (length evs) k
       \<and> cleared (snd (fst (interval_fires evs (a, r)))) = (k \<le> length evs)
       \<and> delay_ms (snd (fst (interval_fires evs (a, r)))) = delay_ms r"
  using assms
proof (induction evs arbitrary: a r k)
  case Nil
  then show ?case by simp
next
  case (Cons ev evs)
  let ?sr = "interval_callback ev (a, r)"
  have r': "attempts (snd ?sr) = int k - 1" "cleared (snd ?sr) = (k \<le> 1)"
    "delay_ms (snd ?sr) = delay_ms r"
    using Cons.prems by (auto simp: interval_callback_def Let_def)
  show ?case
  proof (cases "k \<le> 1")
    case True
    with Cons.prems have k1: "k = 1" by simp
    from True r' have "interval_fires evs ?sr = (?sr, 0)"
      by (simp add: interval_fires_cleared)
    with Cons.prems k1 r' show ?thesis by (simp add: Let_def)
  next
    case False
    then obtain j where j: "k = Suc j" "0 < j" by (cases k) auto
    from r' j have "\<not> cleared (snd ?sr)" "attempts (snd ?sr) = int j" by auto
    from Cons.IH[OF this(1) _ j(2), of "fst ?sr"] this(2)
    have "snd (interval_fires evs ?sr) = min (length evs) j
        \<and> cleared (snd (fst (interval_fires evs ?sr))) = (j \<le> length evs)
        \<and> delay_ms (snd (fst (interval_fires evs ?sr))) = delay_ms (snd ?sr)"
      by simp
    with Cons.prems j r' show ?thesis by (simp add: Let_def)
  qed
qed

text \<open>
  Claim C8. The load listener polls the document height and registers an interval of
  300 ms with ten attempts. However often the interval fires afterwards, its callback
  runs at most ten times; at the tenth run it clears the interval, a cleared interval
  runs no callback again, and the state then stays as the tenth run left it.
\<close>

theorem repoll_bounded:
  "delay_ms (snd (on_load ev s)) = 300
   \<and> snd (interval_fires evs (on_load ev s)) = min (length evs) 10
   \<and> cleared (snd (fst (interval_fires evs (on_load ev s)))) = (10 \<le> length evs)
   \<and> (10 \<le> length evs \<longrightarrow>
        interval_fires (evs @ later) (on_load ev s) = interval_fires (take 10 evs) (on_load ev s))"
proof -
  let ?r = "\<lparr>attempts = 10, delay_ms = 300, cleared = False\<rparr>"
  have start: "on_load ev s = (poll_height ev s, ?r)"
    by (simp add: on_load_def)
  have cnt: "\<And>es. snd (interval_fires es (poll_height ev s, ?r)) = min (length es) 10
       \<and> cleared (snd (fst (interval_fires es (poll_height ev s, ?r)))) = (10 \<le> length es)"
    using interval_fires_count[of ?r 10 _ "poll_height ev s"] by simp
  have stop: "interval_fires (es @ later) sr = interval_fires es sr"
    if "cleared (snd (fst (interval_fires es sr)))" for es later sr
    using that
  proof (induction es arbitrary: sr)
    case Nil
    then show ?case by (simp add: interval_fires_cleared)
  next
    case (Cons e es)
    then show ?case by (simp add: Let_def split: if_splits)
  qed
  have "10 \<le> length evs \<longrightarrow>
        interval_fires (evs @ later) (on_load ev s) = interval_fires (take 10 evs) (on_load ev s)"
  proof
    assume len: "10 \<le> length evs"
    then have "cleared (snd (fst (interval_fires (take 10 evs) (poll_height ev s, ?r))))"
      using cnt[of "take 10 evs"] by simp
    from stop[OF this, of "drop 10 evs @ later"]
    show "interval_fires (evs @ later) (on_load ev s) = interval_fires (take 10 evs) (on_load ev s)"
      by (simp add: start flip: append_assoc)
  qed
  with cnt[of evs] start show ?thesis by simp
qed

theorem repoll_bounded_witness:
  "10 \<le> length (replicate 12 (ex_env 5000 ''/a'' 600))
   \<and> interval_fires (replicate 12 (ex_env 5000 ''/a'' 600) @ [ex_env 9000 ''/a'' 600])
        (on_load (ex_env 1000 ''/a'' 600) (initial 0))
       = interval_fires (take 10 (replicate 12 (ex_env 5000 ''/a'' 600)))
           (on_load (ex_env 1000 ''/a'' 600) (initial 0))
   \<and> snd (interval_fires (replicate 12 (ex_env 5000 ''/a'' 600))
            (on_load (ex_env 1000 ''/a'' 600) (initial 0))) = 10"
  using repoll_bounded[of "ex_env 1000 ''/a'' 600" "initial 0" "replicate 12 (ex_env 5000 ''/a'' 600)"
      "[ex_env 9000 ''/a'' 600]"]
  by simp

subsection \<open>Opening and closing a page view\<close>

lemma trackPageview_fetched:
  "fetched (trackPageview cfg ev s) = fetched s @ emitted cfg ev ''pageview'' None (liveProps s)"
  by (simp add: trackPageview_def Let_def trackEvent_frame startEngagement_def
      resetEngagementTracking_def resetScrollTracking_def)

lemma trackPageview_flags:
  "pageviewSent (trackPageview cfg ev s) \<and> \<not> engagementSent (trackPageview cfg ev s)
   \<and> currentPath (trackPageview cfg ev s) = currentPath s"
  by (simp add: trackPageview_def Let_def trackEvent_frame startEngagement_def
      resetEngagementTracking_def resetScrollTracking_def)

lemma trackPageview_eval:
  "trackPageview cfg ev s =
     s\<lparr>pageviewSent := True, documentHeight := getDocumentHeight ev,
       maxScrollDepth := min (to_double (scrollY ev + of_int (innerHeight ev)))
                             (of_int (getDocumentHeight ev)),
       engagementStart := Some (date_now ev), accumulatedEngagement := 0,
       engagementTimerActive := True, engagementSent := False,
       liveProps := props_after cfg ev (liveProps s),
       fetched := fetched s @ emitted cfg ev ''pageview'' None (liveProps s)\<rparr>"
  by (simp add: trackPageview_def Let_def trackEvent_frame startEngagement_def
      resetEngagementTracking_def resetScrollTracking_def getCurrentScrollDepth_def)

lemma trackEngagement_skip:
  "\<not> pageviewSent s \<or> engagementSent s \<Longrightarrow> trackEngagement cfg ev s = s"
  by (auto simp: trackEngagement_def)

lemma trackEngagement_noise:
  "getEngagementTime ev s < 2000 \<Longrightarrow> maxScrollDepth s = 0 \<Longrightarrow> trackEngagement cfg ev s = s"
  by (simp add: trackEngagement_def Let_def)

lemma trackEngagement_report:
  assumes "pageviewSent s" and "\<not> engagementSent s"
    and "\<not> (getEngagementTime ev s < 2000 \<and> maxScrollDepth s = 0)"
  shows "trackEngagement cfg ev s =
           (resetEngagementTracking s)
             \<lparr>engagementSent := True,
              liveProps := props_after cfg ev (liveProps s),
              fetched := fetched s @ emitted cfg ev ''engagement''
                (Some \<lparr>prop_sd = getScrollPercentage s, prop_e = getEngagementTime ev s,
                       prop_h = 1,
                       prop_tt = js_round (to_double (performance_now ev - pageLoadTime s))\<rparr>)
                (liveProps s)\<rparr>"
proof -
  have sd: "getScrollPercentage (pauseEngagement ev s) = getScrollPercentage s"
    by (simp add: getScrollPercentage_def pauseEngagement_def)
  have t0: "pageLoadTime (pauseEngagement ev s) = pageLoadTime s"
    by (simp add: pauseEngagement_def)
  have log: "fetched (pauseEngagement ev s) = fetched s"
    and lp: "liveProps (pauseEngagement ev s) = liveProps s"
    by (simp_all add: pauseEngagement_def)
  let ?pr = "Some \<lparr>prop_sd = getScrollPercentage s, prop_e = getEngagementTime ev s,
                   prop_h = 1,
                   prop_tt = js_round (to_double (performance_now ev - pageLoadTime s))\<rparr>"
  have "trackEngagement cfg ev s =
          (resetEngagementTracking
             (trackEvent cfg ev ''engagement'' ?pr (pauseEngagement ev s)))\<lparr>engagementSent := True\<rparr>"
    using assms by (auto simp: trackEngagement_def Let_def sd t0)
  also have "\<dots> =
          (resetEngagementTracking
             ((pauseEngagement ev s)
                \<lparr>liveProps := props_after cfg ev (liveProps s),
                 fetched := fetched s @ emitted cfg ev ''engagement'' ?pr (liveProps s)\<rparr>))
             \<lparr>engagementSent := True\<rparr>"
    by (simp add: trackEvent_frame log lp)
  also have "\<dots> =
          (resetEngagementTracking s)
             \<lparr>engagementSent := True,
              liveProps := props_after cfg ev (liveProps s),
              fetched := fetched s @ emitted cfg ev ''engagement'' ?pr (liveProps s)\<rparr>"
    by (simp add: resetEngagementTracking_def pauseEngagement_def)
  finally show ?thesis .
qed

subsection \<open>Rounding keeps the sign\<close>

lemma round_half_even_nonneg: "0 \<le> q \<Longrightarrow> 0 \<le> round_half_even q"
proof -
  assume "0 \<le> q"
  then have "0 \<le> \<lfloor>q\<rfloor>" by simp
  then show ?thesis by (simp add: round_half_even_def Let_def)
qed

lemma to_double_nonneg: "0 \<le> x \<Longrightarrow> 0 \<le> to_double x"
proof -
  assume x: "0 \<le> x"
  have ulp: "0 < (2::real) powi k" for k by simp
  show ?thesis
  proof (cases "x = 0")
    case True
    then show ?thesis by (simp add: to_double_def)
  next
    case False
    with x have pos: "0 < x" by simp
    let ?u = "(2::real) powi (binade \<bar>x\<bar> - 52)"
    have "0 \<le> \<bar>x\<bar> / ?u" using ulp[of "binade \<bar>x\<bar> - 52"] by simp
    then have "0 \<le> round_half_even (\<bar>x\<bar> / ?u)" by (rule round_half_even_nonneg)
    then have "0 \<le> sgn x * of_int (round_half_even (\<bar>x\<bar> / ?u)) * ?u"
      using pos ulp[of "binade \<bar>x\<bar> - 52"] by simp
    then show ?thesis using False by (simp add: to_double_def Let_def)
  qed
qed

lemma getScrollPercentage_range:
  "getScrollPercentage s \<le> 100
   \<and> (0 \<le> maxScrollDepth s \<and> 0 \<le> documentHeight s \<longrightarrow> 0 \<le> getScrollPercentage s)"
proof -
  have "0 \<le> js_round (to_double (to_double (maxScrollDepth s / of_int (documentHeight s)) * 100))"
    if "0 \<le> maxScrollDepth s" and "0 \<le> documentHeight s"
  proof -
    from that have "0 \<le> maxScrollDepth s / of_int (documentHeight s)" by simp
    then have "0 \<le> to_double (maxScrollDepth s / of_int (documentHeight s))"
      by (rule to_double_nonneg)
    then have "0 \<le> to_double (maxScrollDepth s / of_int (documentHeight s)) * 100" by simp
    then have "0 \<le> to_double (to_double (maxScrollDepth s / of_int (documentHeight s)) * 100)"
      by (rule to_double_nonneg)
    then have "0 \<le> to_double (to_double (maxScrollDepth s / of_int (documentHeight s)) * 100) + 1 / 2"
      by simp
    then show ?thesis unfolding js_round_def by (simp only: zero_le_floor of_int_0)
  qed
  then show ?thesis by (auto simp: getScrollPercentage_def)
qed

text \<open>
  The percentage is computed in doubles: 1150 of 2000 is 57.49999999999999 there, not
  57.5, and rounds to 57. Half the document is 50, and an empty document is 0. A
  negative scroll depth, which no browser geometry produces, would give a negative
  percentage.
\<close>

lemma getScrollPercentage_examples:
  "getScrollPercentage ((initial 0)\<lparr>documentHeight := 2000, maxScrollDepth := 1150\<rparr>) = 57
   \<and> getScrollPercentage ((initial 0)\<lparr>documentHeight := 2000, maxScrollDepth := - 300\<rparr>) = - 15
   \<and> getScrollPercentage ((initial 0)\<lparr>documentHeight := 2000, maxScrollDepth := 1000\<rparr>) = 50
   \<and> getScrollPercentage ((initial 0)\<lparr>documentHeight := 2000, maxScrollDepth := 600\<rparr>) = 30
   \<and> getScrollPercentage ((initial 0)\<lparr>documentHeight := 2000, maxScrollDepth := 0\<rparr>) = 0
   \<and> getScrollPercentage ((initial 0)\<lparr>documentHeight := 0, maxScrollDepth := 1000\<rparr>) = 0"
  by code_simp

lemma to_double_examples:
  "to_double 0 = 0 \<and> to_double 600 = 600 \<and> to_double 4000 = 4000 \<and> to_double 5000 = 5000"
  by code_simp

text \<open>
  The time since the start of the script is rounded after the double subtraction: with
  \<^verbatim>\<open>performance.now()\<close> the double nearest 1000.8 and \<^verbatim>\<open>pageLoadTime\<close> the
  double nearest 1.3, the difference is the double 999.5 and \<^verbatim>\<open>tt\<close> is 1000, though
  the exact difference of the two doubles lies below 999.5.
\<close>

lemma tt_double_rounding:
  "js_round (to_double (to_double (10008 / 10) - to_double (13 / 10))) = 1000
   \<and> js_round (to_double (10008 / 10) - to_double (13 / 10)) = 999"
  by code_simp

subsection \<open>The engagement report\<close>

lemma props_after_no_hook: "beforeSend cfg = None \<Longrightarrow> props_after cfg ev lp = lp"
  by (simp add: props_after_def trackEvent_def sendRequest_def Let_def initial_def)

text \<open>The state \<^verbatim>\<open>init\<close> leaves on a page with a path.\<close>

lemma init_eval:
  assumes "pathname (location ev) \<noteq> []"
  shows "init cfg ev t0 =
     \<lparr>currentPath = pathname (location ev), pageviewSent = True,
      documentHeight = getDocumentHeight ev,
      maxScrollDepth = min (to_double (scrollY ev + of_int (innerHeight ev)))
                           (of_int (getDocumentHeight ev)),
      engagementStart = Some (date_now ev), accumulatedEngagement = 0,
      engagementTimerActive = True, engagementSent = False, pageLoadTime = t0,
      ticking = False,
      liveProps = props_after cfg ev (map_option props_object (customProps cfg)),
      fetched = emitted cfg ev ''pageview'' None (map_option props_object (customProps cfg))\<rparr>"
proof -
  let ?s0 = "(initial t0)\<lparr>liveProps := map_option props_object (customProps cfg)\<rparr>"
  have "handleRouteChange cfg ev ?s0 =
          trackPageview cfg ev (?s0\<lparr>currentPath := pathname (location ev), pageviewSent := False\<rparr>)"
    using assms by (simp add: handleRouteChange_def Let_def initial_def)
  then have opened: "handleRouteChange cfg ev ?s0 =
     \<lparr>currentPath = pathname (location ev), pageviewSent = True,
      documentHeight = getDocumentHeight ev,
      maxScrollDepth = min (to_double (scrollY ev + of_int (innerHeight ev)))
                           (of_int (getDocumentHeight ev)),
      engagementStart = Some (date_now ev), accumulatedEngagement = 0,
      engagementTimerActive = True, engagementSent = False, pageLoadTime = t0,
      ticking = False,
      liveProps = props_after cfg ev (map_option props_object (customProps cfg)),
      fetched = emitted cfg ev ''pageview'' None (map_option props_object (customProps cfg))\<rparr>"
    by (simp add: trackPageview_eval initial_def)
  show ?thesis
    unfolding init_def Let_def opened by (simp add: startEngagement_def)
qed

lemma ex_gate_open: "has_fetch (ex_env t path vh) \<and> shouldTrack (ex_env t path vh)"
  by (simp add: ex_env_def ex_loc_def shouldTrack_def is_loopback_def)

lemma ex_emitted:
  "emitted ex_cfg (ex_env t path vh) name pr None =
     [\<lparr>req_url = ''https://collect.example/api/event'',
       req_body = \<lparr>pl_n = name, pl_u = ''https://site.example'' @ path, pl_hu = Some ''u-1'',
                   pl_i = Some 7, pl_r = None, pl_p = None,
                   pl_sd = map_option prop_sd pr, pl_e = map_option prop_e pr,
                   pl_h = map_option prop_h pr, pl_tt = map_option prop_tt pr\<rparr>\<rparr>]"
  using ex_gate_open[of t path vh]
  by (simp add: emitted_def trackEvent_def sendRequest_def basePayload_def getCurrentUrl_def
      initial_def ex_cfg_def Let_def) (simp add: ex_env_def ex_loc_def)

lemma ex_props_after: "props_after ex_cfg ev None = None"
  by (rule props_after_no_hook) (simp add: ex_cfg_def)

lemma ex_opened_eval:
  assumes "vh = 0 \<or> vh = 600"
  shows "ex_opened vh =
     \<lparr>currentPath = ''/a'', pageviewSent = True, documentHeight = 2000,
      maxScrollDepth = of_int vh, engagementStart = Some 1000, accumulatedEngagement = 0,
      engagementTimerActive = True, engagementSent = False, pageLoadTime = 0, ticking = False,
      liveProps = None,
      fetched = [\<lparr>req_url = ''https://collect.example/api/event'', req_body = ex_data\<rparr>]\<rparr>"
proof -
  have path: "pathname (location (ex_env 1000 ''/a'' vh)) = ''/a''"
    by (simp add: ex_env_def ex_loc_def)
  have none: "map_option props_object (customProps ex_cfg) = None"
    by (simp add: ex_cfg_def)
  have depth: "min (to_double (scrollY (ex_env 1000 ''/a'' vh) + of_int (innerHeight (ex_env 1000 ''/a'' vh))))
                   (of_int (getDocumentHeight (ex_env 1000 ''/a'' vh))) = of_int vh"
    using assms to_double_examples by (auto simp: ex_env_def getDocumentHeight_def)
  have "pathname (location (ex_env 1000 ''/a'' vh)) \<noteq> []"
    by (simp add: path)
  from init_eval[OF this, of ex_cfg 0] show ?thesis
    unfolding ex_opened_def none ex_emitted ex_props_after depth path
    by (simp add: ex_data_def getDocumentHeight_def ex_env_def)
qed

lemma ex_local_opened:
  "init ex_cfg (ex_local 1000) 0 =
     \<lparr>currentPath = ''/a'', pageviewSent = True, documentHeight = 2000,
      maxScrollDepth = 600, engagementStart = Some 1000, accumulatedEngagement = 0,
      engagementTimerActive = True, engagementSent = False, pageLoadTime = 0, ticking = False,
      liveProps = None, fetched = []\<rparr>"
proof -
  have path: "pathname (location (ex_local 1000)) = ''/a''"
    by (simp add: ex_local_def)
  have none: "map_option props_object (customProps ex_cfg) = None"
    by (simp add: ex_cfg_def)
  have shut: "\<not> (has_fetch (ex_local 1000) \<and> shouldTrack (ex_local 1000))"
    by (simp add: ex_local_def shouldTrack_def is_loopback_def)
  have depth: "min (to_double (scrollY (ex_local 1000) + of_int (innerHeight (ex_local 1000))))
                   (of_int (getDocumentHeight (ex_local 1000))) = 600"
    using to_double_examples by (simp add: ex_local_def ex_env_def getDocumentHeight_def)
  have "pathname (location (ex_local 1000)) \<noteq> []"
    by (simp add: path)
  from init_eval[OF this, of ex_cfg 0] show ?thesis
    unfolding none emitted_shut[OF shut] ex_props_after depth path
    by (simp add: getDocumentHeight_def ex_local_def ex_env_def)
qed

text \<open>
  Claim C3, as stated: with \<^verbatim>\<open>pageviewSent\<close> true and \<^verbatim>\<open>engagementSent\<close> false,
  and the noise filter passed, exactly one engagement event is emitted. It fails when
  the dispatcher does not send: on \<^verbatim>\<open>localhost\<close> a page view opened at time 1000
  with scroll depth 600 and closed at time 4000 makes no request at all.
\<close>

theorem closed_gate_counterexample:
  "pageviewSent (init ex_cfg (ex_local 1000) 0)
   \<and> \<not> engagementSent (init ex_cfg (ex_local 1000) 0)
   \<and> getEngagementTime (ex_local 4000) (init ex_cfg (ex_local 1000) 0) = 3000
   \<and> maxScrollDepth (init ex_cfg (ex_local 1000) 0) = 600
   \<and> fetched (trackEngagement ex_cfg (ex_local 4000) (init ex_cfg (ex_local 1000) 0)) = []"
proof -
  let ?s = "init ex_cfg (ex_local 1000) 0"
  have now: "date_now (ex_local 4000) = 4000"
    by (simp add: ex_local_def ex_env_def)
  have flags: "pageviewSent ?s" "\<not> engagementSent ?s"
    and depth: "maxScrollDepth ?s = 600"
    and time: "getEngagementTime (ex_local 4000) ?s = 3000"
    and log: "fetched ?s = []"
    by (simp_all add: ex_local_opened getEngagementTime_def to_number_def now)
  have live: "\<not> (getEngagementTime (ex_local 4000) ?s < 2000 \<and> maxScrollDepth ?s = 0)"
    by (simp add: depth)
  have shut: "\<not> (has_fetch (ex_local 4000) \<and> shouldTrack (ex_local 4000))"
    by (simp add: ex_local_def shouldTrack_def is_loopback_def)
  have "fetched (trackEngagement ex_cfg (ex_local 4000) ?s) = []"
    unfolding trackEngagement_report[OF flags live] emitted_shut[OF shut]
    by (simp add: log)
  with flags depth time show ?thesis by simp
qed

text \<open>
  Claim C3, amended. Let \<^verbatim>\<open>trackEngagement\<close> run with \<^verbatim>\<open>pageviewSent\<close> true and
  \<^verbatim>\<open>engagementSent\<close> false. If the engaged time is below 2000 and
  \<^verbatim>\<open>maxScrollDepth\<close> is 0, the state is returned as it was and nothing is sent.
  Otherwise one engagement event is handed to the dispatcher. When \<^verbatim>\<open>fetch\<close> is
  available and \<^verbatim>\<open>shouldTrack\<close> is true, the dispatcher makes exactly one request;
  apart from \<^verbatim>\<open>p\<close> its body is the base payload with \<^verbatim>\<open>n\<close> the string
  \<^verbatim>\<open>engagement\<close>, \<^verbatim>\<open>sd\<close> the scroll percentage, \<^verbatim>\<open>e\<close> the engaged time,
  \<^verbatim>\<open>h\<close> the number 1 and \<^verbatim>\<open>tt\<close> the rounded double difference of
  \<^verbatim>\<open>performance.now()\<close> and \<^verbatim>\<open>pageLoadTime\<close>. Otherwise the dispatcher makes
  no request. The scroll percentage, rounded from a product of doubles, is an integer
  of at most 100, and at least 0 when neither the scroll depth nor the document height
  is negative.
\<close>

theorem trackEngagement_report_or_suppress:
  assumes "pageviewSent s" and "\<not> engagementSent s"
  shows "(getEngagementTime ev s < 2000 \<and> maxScrollDepth s = 0 \<longrightarrow> trackEngagement cfg ev s = s)
       \<and> (\<not> (getEngagementTime ev s < 2000 \<and> maxScrollDepth s = 0) \<and> has_fetch ev \<and> shouldTrack ev
            \<longrightarrow> (\<exists>b. fetched (trackEngagement cfg ev s)
                         = fetched s @ [\<lparr>req_url = endpoint cfg, req_body = b\<rparr>]
                     \<and> b\<lparr>pl_p := None\<rparr> =
                         \<lparr>pl_n = ''engagement'', pl_u = getCurrentUrl ev, pl_hu = uniqueId cfg,
                          pl_i = siteId cfg,
                          pl_r = (if referrer ev = [] then None else Some (referrer ev)),
                          pl_p = None,
                          pl_sd = Some (getScrollPercentage s),
                          pl_e = Some (getEngagementTime ev s),
                          pl_h = Some 1,
                          pl_tt = Some (js_round (to_double (performance_now ev - pageLoadTime s)))\<rparr>))
       \<and> (\<not> (has_fetch ev \<and> shouldTrack ev)
            \<longrightarrow> fetched (trackEngagement cfg ev s) = fetched s)
       \<and> getScrollPercentage s \<le> 100
       \<and> (0 \<le> maxScrollDepth s \<and> 0 \<le> documentHeight s \<longrightarrow> 0 \<le> getScrollPercentage s)"
proof -
  let ?pr = "Some \<lparr>prop_sd = getScrollPercentage s, prop_e = getEngagementTime ev s,
                   prop_h = 1,
                   prop_tt = js_round (to_double (performance_now ev - pageLoadTime s))\<rparr>"
  have noise: "getEngagementTime ev s < 2000 \<and> maxScrollDepth s = 0 \<longrightarrow> trackEngagement cfg ev s = s"
    by (simp add: trackEngagement_noise)
  have sent: "\<exists>b. fetched (trackEngagement cfg ev s)
                         = fetched s @ [\<lparr>req_url = endpoint cfg, req_body = b\<rparr>]
                     \<and> b\<lparr>pl_p := None\<rparr> =
                         \<lparr>pl_n = ''engagement'', pl_u = getCurrentUrl ev, pl_hu = uniqueId cfg,
                          pl_i = siteId cfg,
                          pl_r = (if referrer ev = [] then None else Some (referrer ev)),
                          pl_p = None,
                          pl_sd = Some (getScrollPercentage s),
                          pl_e = Some (getEngagementTime ev s),
                          pl_h = Some 1,
                          pl_tt = Some (js_round (to_double (performance_now ev - pageLoadTime s)))\<rparr>"
    if real: "\<not> (getEngagementTime ev s < 2000 \<and> maxScrollDepth s = 0)"
      and gate: "has_fetch ev" "shouldTrack ev"
  proof -
    from emitted_open[OF gate, of cfg "''engagement''" ?pr "liveProps s"]
    obtain b where "emitted cfg ev ''engagement'' ?pr (liveProps s) = [\<lparr>req_url = endpoint cfg, req_body = b\<rparr>]"
      and "b\<lparr>pl_p := None\<rparr> =
             \<lparr>pl_n = ''engagement'', pl_u = getCurrentUrl ev, pl_hu = uniqueId cfg,
              pl_i = siteId cfg,
              pl_r = (if referrer ev = [] then None else Some (referrer ev)),
              pl_p = None,
              pl_sd = Some (getScrollPercentage s),
              pl_e = Some (getEngagementTime ev s),
              pl_h = Some 1,
              pl_tt = Some (js_round (to_double (performance_now ev - pageLoadTime s)))\<rparr>"
      by auto
    with trackEngagement_report[OF assms real, of cfg] show ?thesis
      by (simp add: resetEngagementTracking_def)
  qed
  have shut: "fetched (trackEngagement cfg ev s) = fetched s" if "\<not> (has_fetch ev \<and> shouldTrack ev)"
  proof (cases "getEngagementTime ev s < 2000 \<and> maxScrollDepth s = 0")
    case True
    then show ?thesis by (simp add: trackEngagement_noise)
  next
    case False
    have "emitted cfg ev ''engagement'' ?pr (liveProps s) = []"
      using that by (rule emitted_shut)
    with trackEngagement_report[OF assms False, of cfg] show ?thesis
      by (simp add: resetEngagementTracking_def)
  qed
  from noise sent shut getScrollPercentage_range[of s] show ?thesis by blast
qed

theorem trackEngagement_report_or_suppress_witness:
  "pageviewSent (ex_opened 0) \<and> \<not> engagementSent (ex_opened 0)
   \<and> getEngagementTime (ex_env 1500 ''/a'' 0) (ex_opened 0) = 500
   \<and> maxScrollDepth (ex_opened 0) = 0
   \<and> trackEngagement ex_cfg (ex_env 1500 ''/a'' 0) (ex_opened 0) = ex_opened 0
   \<and> (\<exists>b. fetched (trackEngagement ex_cfg (ex_env 4000 ''/a'' 0) (ex_opened 0))
             = fetched (ex_opened 0) @
               [\<lparr>req_url = ''https://collect.example/api/event'', req_body = b\<rparr>]
          \<and> b\<lparr>pl_p := None\<rparr> =
               \<lparr>pl_n = ''engagement'', pl_u = ''https://site.example/a'', pl_hu = Some ''u-1'',
                pl_i = Some 7, pl_r = None, pl_p = None,
                pl_sd = Some 0, pl_e = Some 3000, pl_h = Some 1, pl_tt = Some 4000\<rparr>)
   \<and> getScrollPercentage (ex_opened 600) = 30"
proof -
  have flags: "pageviewSent (ex_opened 0)" "\<not> engagementSent (ex_opened 0)"
    by (simp_all add: ex_opened_eval)
  have short: "getEngagementTime (ex_env 1500 ''/a'' 0) (ex_opened 0) = 500"
    and long: "getEngagementTime (ex_env 4000 ''/a'' 0) (ex_opened 0) = 3000"
    and depth: "maxScrollDepth (ex_opened 0) = 0"
    by (simp_all add: ex_opened_eval getEngagementTime_def to_number_def ex_env_def)
  have sd: "getScrollPercentage (ex_opened 0) = 0"
    using getScrollPercentage_examples
    by (simp add: ex_opened_eval getScrollPercentage_def)
  have sd600: "getScrollPercentage (ex_opened 600) = 30"
    using getScrollPercentage_examples
    by (simp add: ex_opened_eval getScrollPercentage_def)
  have tt: "js_round (to_double (performance_now (ex_env 4000 ''/a'' 0) - pageLoadTime (ex_opened 0)))
              = 4000"
    using to_double_examples by (simp add: ex_opened_eval ex_env_def js_round_def)
  have base: "getCurrentUrl (ex_env 4000 ''/a'' 0) = ''https://site.example/a''"
    "referrer (ex_env 4000 ''/a'' 0) = []"
    "endpoint ex_cfg = ''https://collect.example/api/event''"
    "uniqueId ex_cfg = Some ''u-1''" "siteId ex_cfg = Some 7"
    by (simp_all add: getCurrentUrl_def ex_env_def ex_loc_def ex_cfg_def)
  from trackEngagement_report_or_suppress[OF flags, of "ex_env 1500 ''/a'' 0" ex_cfg] short depth
  have quiet: "trackEngagement ex_cfg (ex_env 1500 ''/a'' 0) (ex_opened 0) = ex_opened 0"
    by simp
  from trackEngagement_report_or_suppress[OF flags, of "ex_env 4000 ''/a'' 0" ex_cfg]
    long ex_gate_open[of 4000 "''/a''" 0]
  have "\<exists>b. fetched (trackEngagement ex_cfg (ex_env 4000 ''/a'' 0) (ex_opened 0))
             = fetched (ex_opened 0) @
               [\<lparr>req_url = ''https://collect.example/api/event'', req_body = b\<rparr>]
          \<and> b\<lparr>pl_p := None\<rparr> =
               \<lparr>pl_n = ''engagement'', pl_u = ''https://site.example/a'', pl_hu = Some ''u-1'',
                pl_i = Some 7, pl_r = None, pl_p = None,
                pl_sd = Some 0, pl_e = Some 3000, pl_h = Some 1, pl_tt = Some 4000\<rparr>"
    by (simp add: sd tt base)
  with flags short depth quiet sd600 show ?thesis by simp
qed

subsection \<open>Route changes\<close>

lemma since_append: "fetched s' = fetched s @ xs \<Longrightarrow> since s s' = xs"
  by (simp add: since_def)

lemma since_self: "since s s = []"
  by (simp add: since_def)

lemma names_emitted: "set (names (emitted cfg ev name pr lp)) \<subseteq> {name}"
  using emitted_at_most_one[of cfg ev name pr lp] by (auto simp: names_def)

lemma trackEngagement_path: "currentPath (trackEngagement cfg ev s) = currentPath s"
proof (cases "pageviewSent s \<and> \<not> engagementSent s
              \<and> \<not> (getEngagementTime ev s < 2000 \<and> maxScrollDepth s = 0)")
  case True
  then show ?thesis
    by (simp add: trackEngagement_report resetEngagementTracking_def)
next
  case False
  then have "trackEngagement cfg ev s = s"
    using trackEngagement_skip[of s cfg ev] trackEngagement_noise[of ev s cfg] by blast
  then show ?thesis by simp
qed

text \<open>
  One call of \<^verbatim>\<open>trackEngagement\<close> only appends to the log, appends nothing but
  engagement events, and pays for each of them out of the page view's budget.
\<close>

lemma trackEngagement_effect:
  "fetched (trackEngagement cfg ev s) = fetched s @ since s (trackEngagement cfg ev s)
   \<and> set (names (since s (trackEngagement cfg ev s))) \<subseteq> {''engagement''}
   \<and> length (since s (trackEngagement cfg ev s)) + budget (trackEngagement cfg ev s) \<le> budget s"
proof (cases "pageviewSent s \<and> \<not> engagementSent s
              \<and> \<not> (getEngagementTime ev s < 2000 \<and> maxScrollDepth s = 0)")
  case True
  let ?pr = "Some \<lparr>prop_sd = getScrollPercentage s, prop_e = getEngagementTime ev s,
                   prop_h = 1,
                   prop_tt = js_round (to_double (performance_now ev - pageLoadTime s))\<rparr>"
  from True have eq: "trackEngagement cfg ev s =
           (resetEngagementTracking s)
             \<lparr>engagementSent := True, liveProps := props_after cfg ev (liveProps s),
              fetched := fetched s @ emitted cfg ev ''engagement'' ?pr (liveProps s)\<rparr>"
    by (simp add: trackEngagement_report)
  then have log: "fetched (trackEngagement cfg ev s)
                    = fetched s @ emitted cfg ev ''engagement'' ?pr (liveProps s)"
    by simp
  then have snc: "since s (trackEngagement cfg ev s) = emitted cfg ev ''engagement'' ?pr (liveProps s)"
    by (rule since_append)
  have "budget (trackEngagement cfg ev s) = 0"
    by (simp add: eq budget_def)
  moreover from True have "budget s = 1"
    by (simp add: budget_def)
  ultimately show ?thesis
    using log snc names_emitted[of cfg ev "''engagement''" ?pr "liveProps s"]
      emitted_at_most_one[of cfg ev "''engagement''" ?pr "liveProps s"]
    by simp
next
  case False
  then have "trackEngagement cfg ev s = s"
    using trackEngagement_skip[of s cfg ev] trackEngagement_noise[of ev s cfg] by blast
  then show ?thesis by (simp add: since_self names_def)
qed

lemma handleRouteChange_same:
  "pathname (location ev) = currentPath s \<Longrightarrow> handleRouteChange cfg ev s = s"
  by (simp add: handleRouteChange_def)

lemma handleRouteChange_change:
  "pathname (location ev) \<noteq> currentPath s \<Longrightarrow>
     handleRouteChange cfg ev s =
       trackPageview cfg ev
         ((if currentPath s \<noteq> [] then trackEngagement cfg ev s else s)
            \<lparr>currentPath := pathname (location ev), pageviewSent := False\<rparr>)"
  by (simp add: handleRouteChange_def Let_def)

lemma handleRouteChange_path:
  "currentPath (handleRouteChange cfg ev s) = pathname (location ev)"
proof (cases "pathname (location ev) = currentPath s")
  case True
  then show ?thesis by (simp add: handleRouteChange_same)
next
  case False
  then show ?thesis by (simp add: handleRouteChange_change trackPageview_flags)
qed

text \<open>
  Claim C2. \<^verbatim>\<open>handleRouteChange\<close> returns the state unchanged when
  \<^verbatim>\<open>location.pathname\<close> equals \<^verbatim>\<open>currentPath\<close>. When the path differs and
  \<^verbatim>\<open>currentPath\<close> is not empty, it first runs \<^verbatim>\<open>trackEngagement\<close> on the outgoing
  page view, then sets \<^verbatim>\<open>currentPath\<close> to the new path and runs
  \<^verbatim>\<open>trackPageview\<close>: the requests it makes are those of the closing call, all of
  them engagement events and at most one, followed by those of the opening call, all
  of them pageview events and at most one. Afterwards \<^verbatim>\<open>currentPath\<close> is the new
  path. With \<^verbatim>\<open>fetch\<close> available and tracking allowed the pageview is sent, and an
  outgoing page view that is open and passes the noise filter sends its engagement
  just before it.
\<close>

theorem handleRouteChange_closes_then_opens:
  "(pathname (location ev) = currentPath s \<longrightarrow> handleRouteChange cfg ev s = s)
   \<and> (pathname (location ev) \<noteq> currentPath s \<and> currentPath s \<noteq> [] \<longrightarrow>
        handleRouteChange cfg ev s =
          trackPageview cfg ev
            ((trackEngagement cfg ev s)\<lparr>currentPath := pathname (location ev), pageviewSent := False\<rparr>)
        \<and> currentPath (handleRouteChange cfg ev s) = pathname (location ev)
        \<and> fetched (handleRouteChange cfg ev s) =
            fetched s @ since s (trackEngagement cfg ev s) @ emitted cfg ev ''pageview'' None (liveProps (trackEngagement cfg ev s))
        \<and> set (names (since s (trackEngagement cfg ev s))) \<subseteq> {''engagement''}
        \<and> length (since s (trackEngagement cfg ev s)) \<le> 1
        \<and> set (names (emitted cfg ev ''pageview'' None (liveProps (trackEngagement cfg ev s)))) \<subseteq> {''pageview''}
        \<and> length (emitted cfg ev ''pageview'' None (liveProps (trackEngagement cfg ev s))) \<le> 1
        \<and> (has_fetch ev \<and> shouldTrack ev \<longrightarrow> names (emitted cfg ev ''pageview'' None (liveProps (trackEngagement cfg ev s))) = [''pageview''])
        \<and> (has_fetch ev \<and> shouldTrack ev \<and> pageviewSent s \<and> \<not> engagementSent s
             \<and> \<not> (getEngagementTime ev s < 2000 \<and> maxScrollDepth s = 0) \<longrightarrow>
             names (since s (handleRouteChange cfg ev s)) = [''engagement'', ''pageview'']))"
proof -
  have moved: "handleRouteChange cfg ev s =
          trackPageview cfg ev
            ((trackEngagement cfg ev s)\<lparr>currentPath := pathname (location ev), pageviewSent := False\<rparr>)
        \<and> fetched (handleRouteChange cfg ev s) =
            fetched s @ since s (trackEngagement cfg ev s) @ emitted cfg ev ''pageview'' None (liveProps (trackEngagement cfg ev s))"
    if "pathname (location ev) \<noteq> currentPath s" and "currentPath s \<noteq> []"
    using that trackEngagement_effect[of cfg ev s]
    by (simp add: handleRouteChange_change trackPageview_fetched)
  have one: "length (since s (trackEngagement cfg ev s)) \<le> 1"
  proof -
    have "budget s \<le> 1" by (simp add: budget_def)
    with trackEngagement_effect[of cfg ev s] show ?thesis by linarith
  qed
  have pv: "names (emitted cfg ev ''pageview'' None (liveProps (trackEngagement cfg ev s))) = [''pageview'']"
    if "has_fetch ev" and "shouldTrack ev"
    using emitted_open[OF that, of cfg "''pageview''" None "liveProps (trackEngagement cfg ev s)"]
      emitted_at_most_one[of cfg ev "''pageview''" None "liveProps (trackEngagement cfg ev s)"]
    by (auto simp: names_def)
  have both: "names (since s (handleRouteChange cfg ev s)) = [''engagement'', ''pageview'']"
    if chg: "pathname (location ev) \<noteq> currentPath s" "currentPath s \<noteq> []"
      and gate: "has_fetch ev" "shouldTrack ev"
      and live: "pageviewSent s" "\<not> engagementSent s"
        "\<not> (getEngagementTime ev s < 2000 \<and> maxScrollDepth s = 0)"
  proof -
    let ?pr = "Some \<lparr>prop_sd = getScrollPercentage s, prop_e = getEngagementTime ev s,
                     prop_h = 1,
                   prop_tt = js_round (to_double (performance_now ev - pageLoadTime s))\<rparr>"
    have "fetched (trackEngagement cfg ev s)
            = fetched s @ emitted cfg ev ''engagement'' ?pr (liveProps s)"
      by (simp add: trackEngagement_report[OF live])
    then have closing: "since s (trackEngagement cfg ev s)
                          = emitted cfg ev ''engagement'' ?pr (liveProps s)"
      by (rule since_append)
    have eng: "names (emitted cfg ev ''engagement'' ?pr (liveProps s)) = [''engagement'']"
      using emitted_open[OF gate, of cfg "''engagement''" ?pr "liveProps s"]
        emitted_at_most_one[of cfg ev "''engagement''" ?pr "liveProps s"]
      by (auto simp: names_def)
    from closing have "fetched (handleRouteChange cfg ev s) =
        fetched s @ (emitted cfg ev ''engagement'' ?pr (liveProps s)
                     @ emitted cfg ev ''pageview'' None (liveProps (trackEngagement cfg ev s)))"
      using moved[OF chg, THEN conjunct2] by simp
    then have "since s (handleRouteChange cfg ev s) =
        emitted cfg ev ''engagement'' ?pr (liveProps s)
        @ emitted cfg ev ''pageview'' None (liveProps (trackEngagement cfg ev s))"
      by (rule since_append)
    with pv[OF gate] eng show ?thesis by (simp add: names_def)
  qed
  from moved one pv both show ?thesis
    using handleRouteChange_same[of ev s cfg] handleRouteChange_path[of cfg ev s]
      trackEngagement_effect[of cfg ev s]
      names_emitted[of cfg ev "''pageview''" None "liveProps (trackEngagement cfg ev s)"]
      emitted_at_most_one[of cfg ev "''pageview''" None "liveProps (trackEngagement cfg ev s)"]
    by blast
qed

theorem handleRouteChange_closes_then_opens_witness:
  "pathname (location (ex_env 4000 ''/b'' 0)) \<noteq> currentPath (ex_opened 0)
   \<and> currentPath (ex_opened 0) \<noteq> []
   \<and> has_fetch (ex_env 4000 ''/b'' 0) \<and> shouldTrack (ex_env 4000 ''/b'' 0)
   \<and> pageviewSent (ex_opened 0) \<and> \<not> engagementSent (ex_opened 0)
   \<and> getEngagementTime (ex_env 4000 ''/b'' 0) (ex_opened 0) = 3000
   \<and> names (since (ex_opened 0) (handleRouteChange ex_cfg (ex_env 4000 ''/b'' 0) (ex_opened 0)))
       = [''engagement'', ''pageview'']
   \<and> currentPath (handleRouteChange ex_cfg (ex_env 4000 ''/b'' 0) (ex_opened 0)) = ''/b''
   \<and> pathname (location (ex_env 4000 ''/a'' 0)) = currentPath (ex_opened 0)
   \<and> handleRouteChange ex_cfg (ex_env 4000 ''/a'' 0) (ex_opened 0) = ex_opened 0"
proof -
  have facts: "pathname (location (ex_env 4000 ''/b'' 0)) = ''/b''"
    "pathname (location (ex_env 4000 ''/a'' 0)) = ''/a''"
    "currentPath (ex_opened 0) = ''/a''" "pageviewSent (ex_opened 0)"
    "\<not> engagementSent (ex_opened 0)"
    "getEngagementTime (ex_env 4000 ''/b'' 0) (ex_opened 0) = 3000"
    by (simp_all add: ex_opened_eval getEngagementTime_def to_number_def ex_env_def ex_loc_def)
  have chg: "pathname (location (ex_env 4000 ''/b'' 0)) \<noteq> currentPath (ex_opened 0)"
    "currentPath (ex_opened 0) \<noteq> []"
    and same: "pathname (location (ex_env 4000 ''/a'' 0)) = currentPath (ex_opened 0)"
    and live: "\<not> (getEngagementTime (ex_env 4000 ''/b'' 0) (ex_opened 0) < 2000
                  \<and> maxScrollDepth (ex_opened 0) = 0)"
    by (simp_all add: facts)
  note gate = ex_gate_open[of 4000 "''/b''" 0]
  from handleRouteChange_closes_then_opens[of "ex_env 4000 ''/b'' 0" "ex_opened 0" ex_cfg]
    chg gate live facts(4,5)
  have order: "names (since (ex_opened 0) (handleRouteChange ex_cfg (ex_env 4000 ''/b'' 0) (ex_opened 0)))
                 = [''engagement'', ''pageview'']"
    and path: "currentPath (handleRouteChange ex_cfg (ex_env 4000 ''/b'' 0) (ex_opened 0))
                 = pathname (location (ex_env 4000 ''/b'' 0))"
    by blast+
  from handleRouteChange_closes_then_opens[of "ex_env 4000 ''/a'' 0" "ex_opened 0" ex_cfg] same
  have noop: "handleRouteChange ex_cfg (ex_env 4000 ''/a'' 0) (ex_opened 0) = ex_opened 0"
    by blast
  from chg same gate facts order path noop show ?thesis by simp
qed

lemma emitted_open_fields:
  assumes "has_fetch ev" and "shouldTrack ev"
  shows "map (\<lambda>rq. (pl_n (req_body rq), pl_u (req_body rq))) (emitted cfg ev name pr lp)
           = [(name, getCurrentUrl ev)]"
proof -
  from emitted_open[OF assms, of cfg name pr lp]
  obtain b where em: "emitted cfg ev name pr lp = [\<lparr>req_url = endpoint cfg, req_body = b\<rparr>]"
    and b: "b\<lparr>pl_p := None\<rparr> =
               \<lparr>pl_n = name, pl_u = getCurrentUrl ev, pl_hu = uniqueId cfg, pl_i = siteId cfg,
                pl_r = (if referrer ev = [] then None else Some (referrer ev)), pl_p = None,
                pl_sd = map_option prop_sd pr, pl_e = map_option prop_e pr,
                pl_h = map_option prop_h pr, pl_tt = map_option prop_tt pr\<rparr>"
    by blast
  have "pl_n (b\<lparr>pl_p := None\<rparr>) = name" and "pl_u (b\<lparr>pl_p := None\<rparr>) = getCurrentUrl ev"
    by (simp_all only: b payload.simps)
  then have "pl_n b = name" and "pl_u b = getCurrentUrl ev" by simp_all
  with em show ?thesis by simp
qed

text \<open>
  Claim C10. \<^verbatim>\<open>handleRouteChange\<close> looks at \<^verbatim>\<open>location.pathname\<close> only. Whenever
  the path name equals \<^verbatim>\<open>currentPath\<close>, whatever the rest of the URL, the state is
  returned unchanged: no request is made, no page view is opened, and the scroll and
  engagement variables keep their values; the same holds for the wrapped history
  methods and the navigation events. In particular, once a route change has been
  handled, a navigation to any URL with the same path name changes nothing.
\<close>

theorem same_pathname_is_noop:
  "(pathname (location ev) = currentPath s \<longrightarrow>
      handleRouteChange cfg ev s = s \<and> wrapped_history cfg ev NoUrl s = s
      \<and> step cfg (ev, PopState) s = s)
   \<and> (pathname l = currentPath s \<longrightarrow> wrapped_history cfg ev (Url l) s = s)
   \<and> (pathname (location ev') = pathname (location ev) \<longrightarrow>
        handleRouteChange cfg ev' (handleRouteChange cfg ev s) = handleRouteChange cfg ev s)
   \<and> (pathname l = pathname (location ev) \<longrightarrow>
        wrapped_history cfg ev' (Url l) (handleRouteChange cfg ev s) = handleRouteChange cfg ev s)"
proof -
  have direct: "handleRouteChange cfg e (handleRouteChange cfg ev s) = handleRouteChange cfg ev s"
    if "pathname (location e) = pathname (location ev)" for e
    using that by (simp add: handleRouteChange_same handleRouteChange_path)
  have moved: "pathname (location (ev'\<lparr>location := l\<rparr>)) = pathname l"
    by simp
  show ?thesis
    using direct[of ev'] direct[of "ev'\<lparr>location := l\<rparr>"] moved
    by (simp add: wrapped_history_def history_original_def handleRouteChange_same)
qed

theorem same_pathname_is_noop_witness:
  "pathname ((ex_loc ''/a'')\<lparr>href := Returned ''https://site.example/a?tab=2#top''\<rparr>)
     = currentPath (ex_opened 600)
   \<and> wrapped_history ex_cfg (ex_env 4000 ''/a'' 600)
        (Url ((ex_loc ''/a'')\<lparr>href := Returned ''https://site.example/a?tab=2#top''\<rparr>))
        (ex_opened 600) = ex_opened 600"
proof -
  have "pathname ((ex_loc ''/a'')\<lparr>href := Returned ''https://site.example/a?tab=2#top''\<rparr>)
          = currentPath (ex_opened 600)"
    by (simp add: ex_opened_eval ex_loc_def)
  with same_pathname_is_noop[of "ex_env 4000 ''/a'' 600" "ex_opened 600" ex_cfg
      "(ex_loc ''/a'')\<lparr>href := Returned ''https://site.example/a?tab=2#top''\<rparr>"]
  show ?thesis by simp
qed

text \<open>
  Claim C9. When the wrapped \<^verbatim>\<open>pushState\<close> or \<^verbatim>\<open>replaceState\<close> moves the location
  to a new path and this closes an open page view that passes the noise filter, with
  \<^verbatim>\<open>fetch\<close> available and tracking allowed, two requests are made: the engagement
  event of the page being left and the pageview of the new page. Both carry as \<^verbatim>\<open>u\<close>
  the URL read when they are sent, which is \<^verbatim>\<open>location.href\<close> of the destination
  (or the empty string if reading it throws), because the original history method
  has already run.
\<close>

theorem engagement_reports_destination_url:
  assumes "pathname l \<noteq> currentPath s" and "currentPath s \<noteq> []"
    and "pageviewSent s" and "\<not> engagementSent s"
    and "\<not> (getEngagementTime ev s < 2000 \<and> maxScrollDepth s = 0)"
    and "has_fetch ev" and "shouldTrack (ev\<lparr>location := l\<rparr>)"
  shows "map (\<lambda>rq. (pl_n (req_body rq), pl_u (req_body rq)))
             (since s (wrapped_history cfg ev (Url l) s))
           = [(''engagement'', getCurrentUrl (ev\<lparr>location := l\<rparr>)),
              (''pageview'', getCurrentUrl (ev\<lparr>location := l\<rparr>))]
       \<and> getCurrentUrl (ev\<lparr>location := l\<rparr>) = (case href l of Raised \<Rightarrow> [] | Returned u \<Rightarrow> u)"
proof -
  let ?ev = "ev\<lparr>location := l\<rparr>"
  let ?pr = "Some \<lparr>prop_sd = getScrollPercentage s, prop_e = getEngagementTime ?ev s,
                   prop_h = 1,
                   prop_tt = js_round (to_double (performance_now ?ev - pageLoadTime s))\<rparr>"
  have time: "getEngagementTime ?ev s = getEngagementTime ev s"
    by (simp add: getEngagementTime_def)
  have gate: "has_fetch ?ev" "shouldTrack ?ev"
    using assms(6,7) by simp_all
  have live: "\<not> (getEngagementTime ?ev s < 2000 \<and> maxScrollDepth s = 0)"
    using assms(5) by (simp add: time)
  have chg: "pathname (location ?ev) \<noteq> currentPath s"
    using assms(1) by simp
  have closing: "trackEngagement cfg ?ev s =
           (resetEngagementTracking s)
             \<lparr>engagementSent := True, liveProps := props_after cfg ?ev (liveProps s),
              fetched := fetched s @ emitted cfg ?ev ''engagement'' ?pr (liveProps s)\<rparr>"
    by (rule trackEngagement_report[OF assms(3,4) live])
  have "wrapped_history cfg ev (Url l) s = handleRouteChange cfg ?ev s"
    by (simp add: wrapped_history_def history_original_def)
  also have "\<dots> = trackPageview cfg ?ev
         ((trackEngagement cfg ?ev s)\<lparr>currentPath := pathname (location ?ev), pageviewSent := False\<rparr>)"
    using assms(2) by (simp add: handleRouteChange_change[OF chg])
  finally have "fetched (wrapped_history cfg ev (Url l) s) =
      fetched s @ (emitted cfg ?ev ''engagement'' ?pr (liveProps s)
                   @ emitted cfg ?ev ''pageview'' None (props_after cfg ?ev (liveProps s)))"
    by (simp add: trackPageview_fetched closing)
  then have "since s (wrapped_history cfg ev (Url l) s) =
      emitted cfg ?ev ''engagement'' ?pr (liveProps s)
      @ emitted cfg ?ev ''pageview'' None (props_after cfg ?ev (liveProps s))"
    by (rule since_append)
  then show ?thesis
    by (simp add: emitted_open_fields[OF gate] getCurrentUrl_def)
qed

theorem engagement_reports_destination_url_witness:
  "pathname (ex_loc ''/b'') \<noteq> currentPath (ex_opened 600) \<and> currentPath (ex_opened 600) \<noteq> []
   \<and> pageviewSent (ex_opened 600) \<and> \<not> engagementSent (ex_opened 600)
   \<and> maxScrollDepth (ex_opened 600) = 600
   \<and> has_fetch (ex_env 4000 ''/a'' 600)
   \<and> shouldTrack ((ex_env 4000 ''/a'' 600)\<lparr>location := ex_loc ''/b''\<rparr>)
   \<and> getCurrentUrl (ex_env 4000 ''/a'' 600) = ''https://site.example/a''
   \<and> map (\<lambda>rq. (pl_n (req_body rq), pl_u (req_body rq)))
         (since (ex_opened 600)
            (wrapped_history ex_cfg (ex_env 4000 ''/a'' 600) (Url (ex_loc ''/b'')) (ex_opened 600)))
       = [(''engagement'', ''https://site.example/b''), (''pageview'', ''https://site.example/b'')]"
proof -
  have pre: "pathname (ex_loc ''/b'') \<noteq> currentPath (ex_opened 600)"
    "currentPath (ex_opened 600) \<noteq> []"
    "pageviewSent (ex_opened 600)" "\<not> engagementSent (ex_opened 600)"
    and depth: "maxScrollDepth (ex_opened 600) = 600"
    by (simp_all add: ex_opened_eval ex_loc_def)
  have live: "\<not> (getEngagementTime (ex_env 4000 ''/a'' 600) (ex_opened 600) < 2000
               \<and> maxScrollDepth (ex_opened 600) = 0)"
    by (simp add: depth)
  have avail: "has_fetch (ex_env 4000 ''/a'' 600)"
    using ex_gate_open[of 4000 "''/a''" 600] by simp
  have same: "(ex_env 4000 ''/a'' 600)\<lparr>location := ex_loc ''/b''\<rparr> = ex_env 4000 ''/b'' 600"
    by (simp add: ex_env_def)
  have gate: "shouldTrack ((ex_env 4000 ''/a'' 600)\<lparr>location := ex_loc ''/b''\<rparr>)"
    using ex_gate_open[of 4000 "''/b''" 600] by (simp only: same)
  have old: "getCurrentUrl (ex_env 4000 ''/a'' 600) = ''https://site.example/a''"
    by (simp add: getCurrentUrl_def ex_env_def ex_loc_def)
  from engagement_reports_destination_url[OF pre live avail gate, of ex_cfg] pre depth avail gate old
  show ?thesis by (simp add: ex_loc_def)
qed

subsection \<open>One pageview and one engagement per page view\<close>

lemma handleRouteChange_quiet:
  "currentPath (handleRouteChange cfg ev s) = currentPath s \<Longrightarrow> handleRouteChange cfg ev s = s"
  by (simp add: handleRouteChange_path handleRouteChange_same)

lemma silent_step:
  assumes "fetched s' = fetched s" and "pageviewSent s' = pageviewSent s"
    and "engagementSent s' = engagementSent s"
  shows "fetched s' = fetched s @ since s s'
       \<and> set (names (since s s')) \<subseteq> {''engagement''}
       \<and> length (since s s') + budget s' \<le> budget s"
  using assms by (simp add: since_def names_def budget_def)

lemma unchanged_step:
  "fetched s = fetched s @ since s s
   \<and> set (names (since s s)) \<subseteq> {''engagement''}
   \<and> length (since s s) + budget s \<le> budget s"
  by (simp add: since_self names_def)

text \<open>
  A signal that leaves \<^verbatim>\<open>currentPath\<close> alone sends nothing but engagement events,
  and no more of them than the budget allows.
\<close>

lemma quiet_step:
  assumes "currentPath (step cfg x s) = currentPath s"
  shows "fetched (step cfg x s) = fetched s @ since s (step cfg x s)
       \<and> set (names (since s (step cfg x s))) \<subseteq> {''engagement''}
       \<and> length (since s (step cfg x s)) + budget (step cfg x s) \<le> budget s"
proof (cases x)
  case (Pair ev sg)
  show ?thesis
  proof (cases sg)
    case PopState
    with Pair assms have same: "step cfg x s = s"
      by (simp add: handleRouteChange_quiet)
    show ?thesis unfolding same by (rule unchanged_step)
  next
    case (HistoryCall a)
    with Pair assms have same: "step cfg x s = s"
      by (cases a) (simp_all add: wrapped_history_def history_original_def handleRouteChange_quiet)
    show ?thesis unfolding same by (rule unchanged_step)
  next
    case (PageShow persisted)
    with Pair assms have same: "step cfg x s = s"
      by (cases persisted) (simp_all add: handleRouteChange_quiet)
    show ?thesis unfolding same by (rule unchanged_step)
  next
    case Unload
    with Pair show ?thesis by (simp add: trackEngagement_effect)
  next
    case VisibilityChange
    with Pair show ?thesis
      by (intro silent_step)
        (simp_all add: handleVisibilityChange_def startEngagement_def pauseEngagement_def)
  next
    case Focus
    with Pair show ?thesis by (intro silent_step) (simp_all add: startEngagement_def)
  next
    case Blur
    with Pair show ?thesis by (intro silent_step) (simp_all add: pauseEngagement_def)
  next
    case Scroll
    with Pair show ?thesis by (intro silent_step) (simp_all add: on_scroll_def)
  next
    case AnimationFrame
    with Pair show ?thesis by (intro silent_step) (simp_all add: on_frame_def Let_def)
  next
    case HeightPoll
    with Pair show ?thesis by (intro silent_step) (simp_all add: poll_height_def)
  qed
qed

lemma quiet_run:
  assumes "stable cfg sigs s"
  shows "fetched (run cfg sigs s) = fetched s @ since s (run cfg sigs s)
       \<and> set (names (since s (run cfg sigs s))) \<subseteq> {''engagement''}
       \<and> length (since s (run cfg sigs s)) + budget (run cfg sigs s) \<le> budget s
       \<and> currentPath (run cfg sigs s) = currentPath s"
  using assms
proof (induction sigs arbitrary: s)
  case Nil
  then show ?case by (simp add: since_self names_def)
next
  case (Cons x xs)
  let ?s1 = "step cfg x s"
  let ?s2 = "run cfg xs ?s1"
  from Cons.prems have keep: "currentPath ?s1 = currentPath s" and rest: "stable cfg xs ?s1"
    by simp_all
  note first = quiet_step[OF keep]
  note later = Cons.IH[OF rest]
  from first later have log: "fetched ?s2 = fetched s @ (since s ?s1 @ since ?s1 ?s2)"
    by simp
  then have snc: "since s ?s2 = since s ?s1 @ since ?s1 ?s2"
    by (rule since_append)
  have "set (names (since s ?s2)) \<subseteq> {''engagement''}"
    using first later by (auto simp: snc names_def)
  moreover have "length (since s ?s2) + budget ?s2 \<le> budget s"
    using first later by (simp add: snc)
  ultimately show ?case
    using log snc later keep by simp
qed

lemma count_other:
  assumes "set (names rs) \<subseteq> {a}" and "a \<noteq> b"
  shows "count_list (names rs) b = 0"
  using assms by (auto simp: count_list_0_iff)

lemma count_bounded: "count_list (names rs) b \<le> length rs"
  using count_le_length[of "names rs" b] by (simp add: names_def)

lemma path_change_shape:
  assumes "currentPath (step cfg x s) \<noteq> currentPath s"
  shows "\<exists>ev. step cfg x s =
           trackPageview cfg ev
             ((if currentPath s \<noteq> [] then trackEngagement cfg ev s else s)
                \<lparr>currentPath := currentPath (step cfg x s), pageviewSent := False\<rparr>)"
proof -
  have route: "\<exists>e. handleRouteChange cfg ev s =
           trackPageview cfg e
             ((if currentPath s \<noteq> [] then trackEngagement cfg e s else s)
                \<lparr>currentPath := currentPath (handleRouteChange cfg ev s), pageviewSent := False\<rparr>)"
    if "currentPath (handleRouteChange cfg ev s) \<noteq> currentPath s" for ev
  proof -
    from that have "pathname (location ev) \<noteq> currentPath s"
      by (simp add: handleRouteChange_path)
    then have eq: "handleRouteChange cfg ev s =
           trackPageview cfg ev
             ((if currentPath s \<noteq> [] then trackEngagement cfg ev s else s)
                \<lparr>currentPath := pathname (location ev), pageviewSent := False\<rparr>)"
      by (rule handleRouteChange_change)
    show ?thesis
      unfolding handleRouteChange_path by (rule exI[of _ ev]) (rule eq)
  qed
  show ?thesis
  proof (cases x)
    case (Pair ev sg)
    show ?thesis
    proof (cases sg)
      case PopState
      with Pair assms route[of ev] show ?thesis by simp
    next
      case (HistoryCall a)
      show ?thesis
      proof (cases a)
        case NoUrl
        with HistoryCall Pair assms route[of ev] show ?thesis
          by (simp add: wrapped_history_def history_original_def)
      next
        case (Url l)
        with HistoryCall Pair assms route[of "ev\<lparr>location := l\<rparr>"] show ?thesis
          by (simp add: wrapped_history_def history_original_def)
      next
        case BadUrl
        with HistoryCall Pair assms show ?thesis
          by (simp add: wrapped_history_def history_original_def)
      qed
    next
      case (PageShow persisted)
      with Pair assms route[of ev] show ?thesis by (cases persisted) simp_all
    next
      case Unload
      with Pair have "currentPath (step cfg x s) = currentPath s"
        by (simp add: trackEngagement_path)
      with assms show ?thesis by simp
    next
      case VisibilityChange
      with Pair have "currentPath (step cfg x s) = currentPath s"
        by (simp add: handleVisibilityChange_def startEngagement_def pauseEngagement_def)
      with assms show ?thesis by simp
    next
      case Focus
      with Pair have "currentPath (step cfg x s) = currentPath s"
        by (simp add: startEngagement_def)
      with assms show ?thesis by simp
    next
      case Blur
      with Pair have "currentPath (step cfg x s) = currentPath s"
        by (simp add: pauseEngagement_def)
      with assms show ?thesis by simp
    next
      case Scroll
      with Pair have "currentPath (step cfg x s) = currentPath s"
        by (simp add: on_scroll_def)
      with assms show ?thesis by simp
    next
      case AnimationFrame
      with Pair have "currentPath (step cfg x s) = currentPath s"
        by (simp add: on_frame_def Let_def)
      with assms show ?thesis by simp
    next
      case HeightPoll
      with Pair have "currentPath (step cfg x s) = currentPath s"
        by (simp add: poll_height_def)
      with assms show ?thesis by simp
    qed
  qed
qed

text \<open>
  Claim C1. Every signal that changes \<^verbatim>\<open>currentPath\<close> does so inside
  \<^verbatim>\<open>handleRouteChange\<close>: it closes the old page view with \<^verbatim>\<open>trackEngagement\<close>
  (if the old path is not empty), assigns the new path and opens the new page view with
  \<^verbatim>\<open>trackPageview\<close>. So the life of one value of \<^verbatim>\<open>currentPath\<close> is: the
  assignment and the opening, then any sequence of signals that leave the path alone
  (navigation events to the same path, unload, visibility, focus, blur, scroll frames,
  height polls), then the closing call of the next route change. Among all requests
  made over such a life there is at most one pageview event and at most one engagement
  event. In particular two calls of \<^verbatim>\<open>trackEngagement\<close> in a row send at most one
  engagement event.
\<close>

theorem one_pageview_one_engagement_per_path:
  fixes cfg :: config and ev0 ev1 ev2 ev3 :: env and s s' s'' :: agent and p :: string
    and sigs :: "(env \<times> signal) list"
  defines "opened \<equiv> trackPageview cfg ev0 (s\<lparr>currentPath := p, pageviewSent := False\<rparr>)"
  defines "quiet \<equiv> run cfg sigs opened"
  defines "ended \<equiv> (if currentPath quiet \<noteq> [] then trackEngagement cfg ev1 quiet else quiet)"
  assumes "stable cfg sigs opened"
  shows "fetched ended = fetched s @ since s ended
       \<and> count_list (names (since s ended)) ''pageview'' \<le> 1
       \<and> count_list (names (since s ended)) ''engagement'' \<le> 1
       \<and> count_list (names (since s' (trackEngagement cfg ev3 (trackEngagement cfg ev2 s'))))
            ''engagement'' \<le> 1
       \<and> (currentPath (step cfg x s'') \<noteq> currentPath s'' \<longrightarrow>
            (\<exists>ev. step cfg x s'' =
               trackPageview cfg ev
                 ((if currentPath s'' \<noteq> [] then trackEngagement cfg ev s'' else s'')
                    \<lparr>currentPath := currentPath (step cfg x s''), pageviewSent := False\<rparr>)))"
proof -
  let ?P = "emitted cfg ev0 ''pageview'' None (liveProps s)"
  let ?Q = "since opened quiet"
  let ?C = "since quiet ended"
  have open_log: "fetched opened = fetched s @ ?P"
    by (simp add: opened_def trackPageview_fetched)
  have open_budget: "budget opened = 1"
    by (simp add: opened_def budget_def trackPageview_flags)
  have mid: "fetched quiet = fetched opened @ ?Q" "set (names ?Q) \<subseteq> {''engagement''}"
    "length ?Q + budget quiet \<le> budget opened"
    using quiet_run[OF assms(4)] by (simp_all add: quiet_def)
  have fin: "fetched ended = fetched quiet @ ?C" "set (names ?C) \<subseteq> {''engagement''}"
    "length ?C + budget ended \<le> budget quiet"
    using trackEngagement_effect[of cfg ev1 quiet]
    by (simp_all add: ended_def since_self names_def)
  have log: "fetched ended = fetched s @ (?P @ ?Q @ ?C)"
    by (simp add: fin(1) mid(1) open_log)
  then have snc: "since s ended = ?P @ ?Q @ ?C"
    by (rule since_append)
  have few: "length ?Q + length ?C \<le> 1"
    using mid(3) fin(3) open_budget by linarith
  have pv: "count_list (names (since s ended)) ''pageview'' \<le> 1"
  proof -
    have "count_list (names ?P) ''pageview'' \<le> 1"
      using count_bounded[of ?P "''pageview''"]
        emitted_at_most_one[of cfg ev0 "''pageview''" None "liveProps s"]
      by linarith
    moreover have "count_list (names ?Q) ''pageview'' = 0" "count_list (names ?C) ''pageview'' = 0"
      using count_other[OF mid(2), of "''pageview''"] count_other[OF fin(2), of "''pageview''"]
      by simp_all
    ultimately show ?thesis by (simp add: snc names_def)
  qed
  have eng: "count_list (names (since s ended)) ''engagement'' \<le> 1"
  proof -
    have "count_list (names ?P) ''engagement'' = 0"
      using count_other[OF names_emitted[of cfg ev0 "''pageview''" None "liveProps s"],
          of "''engagement''"]
      by simp
    moreover have "count_list (names ?Q) ''engagement'' + count_list (names ?C) ''engagement'' \<le> 1"
      using count_bounded[of ?Q "''engagement''"] count_bounded[of ?C "''engagement''"] few
      by linarith
    ultimately show ?thesis by (simp add: snc names_def)
  qed
  have twice: "count_list (names (since s' (trackEngagement cfg ev3 (trackEngagement cfg ev2 s'))))
            ''engagement'' \<le> 1"
  proof -
    let ?s1 = "trackEngagement cfg ev2 s'"
    let ?s2 = "trackEngagement cfg ev3 ?s1"
    note a = trackEngagement_effect[of cfg ev2 s']
    note b = trackEngagement_effect[of cfg ev3 ?s1]
    from a b have "fetched ?s2 = fetched s' @ (since s' ?s1 @ since ?s1 ?s2)" by simp
    then have sn: "since s' ?s2 = since s' ?s1 @ since ?s1 ?s2" by (rule since_append)
    have "budget s' \<le> 1" by (simp add: budget_def)
    with a b have "length (since s' ?s1) + length (since ?s1 ?s2) \<le> 1" by linarith
    then have "length (since s' ?s2) \<le> 1" by (simp add: sn)
    with count_bounded[of "since s' ?s2" "''engagement''"] show ?thesis by linarith
  qed
  from log snc pv eng twice path_change_shape[of cfg x s''] show ?thesis by simp
qed

lemma ex_first_page:
  "trackPageview ex_cfg (ex_env 1000 ''/a'' vh)
     ((initial 0)\<lparr>currentPath := ''/a'', pageviewSent := False\<rparr>) = ex_opened vh"
proof -
  let ?ev = "ex_env 1000 ''/a'' vh"
  let ?s = "trackPageview ex_cfg ?ev ((initial 0)\<lparr>currentPath := ''/a'', pageviewSent := False\<rparr>)"
  have path: "pathname (location ?ev) = ''/a''" and vis: "visibilityState ?ev = ''visible''"
    by (simp_all add: ex_env_def ex_loc_def)
  have none: "(initial 0)\<lparr>liveProps := map_option props_object (customProps ex_cfg)\<rparr> = initial 0"
    by (simp add: ex_cfg_def initial_def)
  have "engagementTimerActive ?s"
    by (simp add: trackPageview_eval)
  then have "startEngagement ?ev ?s = ?s"
    by (simp add: startEngagement_def)
  moreover have "handleRouteChange ex_cfg ?ev (initial 0) = ?s"
    by (simp add: handleRouteChange_def Let_def path) (simp add: initial_def)
  ultimately show ?thesis
    by (simp add: ex_opened_def init_def Let_def vis none)
qed

lemma ex_blurred:
  "pauseEngagement (ex_env 2000 ''/a'' 600) (ex_opened 600) =
     (ex_opened 600)\<lparr>accumulatedEngagement := 1000, engagementTimerActive := False\<rparr>"
  by (simp add: ex_opened_eval pauseEngagement_def to_number_def ex_env_def)

lemma ex_reported:
  "trackEngagement ex_cfg (ex_env 5000 ''/a'' 600)
     ((ex_opened 600)\<lparr>accumulatedEngagement := 1000, engagementTimerActive := False\<rparr>) =
     \<lparr>currentPath = ''/a'', pageviewSent = True, documentHeight = 2000,
      maxScrollDepth = 600, engagementStart = None, accumulatedEngagement = 0,
      engagementTimerActive = False, engagementSent = True, pageLoadTime = 0, ticking = False,
      liveProps = None,
      fetched =
        [\<lparr>req_url = ''https://collect.example/api/event'', req_body = ex_data\<rparr>,
         \<lparr>req_url = ''https://collect.example/api/event'',
          req_body = \<lparr>pl_n = ''engagement'', pl_u = ''https://site.example/a'',
                      pl_hu = Some ''u-1'', pl_i = Some 7, pl_r = None, pl_p = None,
                      pl_sd = Some 30, pl_e = Some 1000, pl_h = Some 1, pl_tt = Some 5000\<rparr>\<rparr>]\<rparr>"
proof -
  let ?s = "(ex_opened 600)\<lparr>accumulatedEngagement := 1000, engagementTimerActive := False\<rparr>"
  let ?ev = "ex_env 5000 ''/a'' 600"
  have flags: "pageviewSent ?s" "\<not> engagementSent ?s"
    and depth: "maxScrollDepth ?s = 600"
    and time: "getEngagementTime ?ev ?s = 1000"
    and lp: "liveProps ?s = None"
    by (simp_all add: ex_opened_eval getEngagementTime_def ex_env_def)
  have sd: "getScrollPercentage ?s = 30"
    using getScrollPercentage_examples
    by (simp add: ex_opened_eval getScrollPercentage_def)
  have tt: "js_round (to_double (performance_now ?ev - pageLoadTime ?s)) = 5000"
    using to_double_examples by (simp add: ex_opened_eval ex_env_def js_round_def)
  have live: "\<not> (getEngagementTime ?ev ?s < 2000 \<and> maxScrollDepth ?s = 0)"
    by (simp add: depth)
  show ?thesis
    unfolding trackEngagement_report[OF flags live] time sd tt lp ex_emitted ex_props_after
    by (simp add: ex_opened_eval resetEngagementTracking_def)
qed

lemma ex_run:
  "run ex_cfg ex_signals (ex_opened 600) =
     \<lparr>currentPath = ''/a'', pageviewSent = True, documentHeight = 2000,
      maxScrollDepth = 600, engagementStart = None, accumulatedEngagement = 0,
      engagementTimerActive = False, engagementSent = True, pageLoadTime = 0, ticking = False,
      liveProps = None,
      fetched =
        [\<lparr>req_url = ''https://collect.example/api/event'', req_body = ex_data\<rparr>,
         \<lparr>req_url = ''https://collect.example/api/event'',
          req_body = \<lparr>pl_n = ''engagement'', pl_u = ''https://site.example/a'',
                      pl_hu = Some ''u-1'', pl_i = Some 7, pl_r = None, pl_p = None,
                      pl_sd = Some 30, pl_e = Some 1000, pl_h = Some 1, pl_tt = Some 5000\<rparr>\<rparr>]\<rparr>"
proof -
  have same: "pathname (location (ex_env 6000 ''/a'' 600)) = ''/a''"
    by (simp add: ex_env_def ex_loc_def)
  show ?thesis
    unfolding ex_signals_def run.simps step.simps ex_blurred ex_reported
    by (simp add: handleRouteChange_same same trackEngagement_skip)
qed

lemma ex_stable: "stable ex_cfg ex_signals (ex_opened 600)"
proof -
  have same: "pathname (location (ex_env 6000 ''/a'' 600)) = ''/a''"
    by (simp add: ex_env_def ex_loc_def)
  have start: "currentPath (ex_opened 600) = ''/a''"
    by (simp add: ex_opened_eval)
  show ?thesis
    unfolding ex_signals_def stable.simps step.simps ex_blurred ex_reported
    by (simp add: handleRouteChange_same same trackEngagement_skip start)
qed

theorem one_pageview_one_engagement_per_path_witness:
  "stable ex_cfg ex_signals
     (trackPageview ex_cfg (ex_env 1000 ''/a'' 600)
        ((initial 0)\<lparr>currentPath := ''/a'', pageviewSent := False\<rparr>))
   \<and> names (since (initial 0)
        (trackEngagement ex_cfg (ex_env 8000 ''/b'' 600) (run ex_cfg ex_signals (ex_opened 600))))
       = [''pageview'', ''engagement'']
   \<and> count_list (names (since (initial 0)
        (trackEngagement ex_cfg (ex_env 8000 ''/b'' 600) (run ex_cfg ex_signals (ex_opened 600)))))
        ''pageview'' \<le> 1
   \<and> count_list (names (since (initial 0)
        (trackEngagement ex_cfg (ex_env 8000 ''/b'' 600) (run ex_cfg ex_signals (ex_opened 600)))))
        ''engagement'' \<le> 1"
proof -
  have st: "stable ex_cfg ex_signals
     (trackPageview ex_cfg (ex_env 1000 ''/a'' 600)
        ((initial 0)\<lparr>currentPath := ''/a'', pageviewSent := False\<rparr>))"
    by (simp only: ex_first_page ex_stable)
  have path: "currentPath (run ex_cfg ex_signals (ex_opened 600)) \<noteq> []"
    by (simp add: ex_run)
  have last: "trackEngagement ex_cfg (ex_env 8000 ''/b'' 600) (run ex_cfg ex_signals (ex_opened 600))
                = run ex_cfg ex_signals (ex_opened 600)"
    by (rule trackEngagement_skip) (simp add: ex_run)
  have seen: "names (since (initial 0)
        (trackEngagement ex_cfg (ex_env 8000 ''/b'' 600) (run ex_cfg ex_signals (ex_opened 600))))
       = [''pageview'', ''engagement'']"
    by (simp add: last) (simp add: ex_run since_def names_def initial_def ex_data_def)
  note inst = one_pageview_one_engagement_per_path
    [where cfg = ex_cfg and sigs = ex_signals and ?ev0.0 = "ex_env 1000 ''/a'' 600"
       and s = "initial 0" and p = "''/a''" and ?ev1.0 = "ex_env 8000 ''/b'' 600", OF st]
  note pv = inst[THEN conjunct2, THEN conjunct1, unfolded ex_first_page]
  note eng = inst[THEN conjunct2, THEN conjunct2, THEN conjunct1, unfolded ex_first_page]
  from pv eng path
  have "count_list (names (since (initial 0)
        (trackEngagement ex_cfg (ex_env 8000 ''/b'' 600) (run ex_cfg ex_signals (ex_opened 600)))))
        ''pageview'' \<le> 1
     \<and> count_list (names (since (initial 0)
        (trackEngagement ex_cfg (ex_env 8000 ''/b'' 600) (run ex_cfg ex_signals (ex_opened 600)))))
        ''engagement'' \<le> 1"
    by (simp only: if_True simp_thms)
  with st seen show ?thesis by simp
qed

subsection \<open>The scroll variables stay non-negative\<close>

lemma trackEngagement_scroll:
  "maxScrollDepth (trackEngagement cfg ev s) = maxScrollDepth s
   \<and> documentHeight (trackEngagement cfg ev s) = documentHeight s"
proof (cases "pageviewSent s \<and> \<not> engagementSent s
              \<and> \<not> (getEngagementTime ev s < 2000 \<and> maxScrollDepth s = 0)")
  case True
  then show ?thesis
    by (simp add: trackEngagement_report resetEngagementTracking_def)
next
  case False
  then have "trackEngagement cfg ev s = s"
    using trackEngagement_skip[of s cfg ev] trackEngagement_noise[of ev s cfg] by blast
  then show ?thesis by simp
qed

lemma trackPageview_scroll_ok: "geometry_ok ev \<Longrightarrow> scroll_ok (trackPageview cfg ev s)"
  using to_double_nonneg[of "scrollY ev + of_int (innerHeight ev)"]
  by (simp add: trackPageview_eval getDocumentHeight_def geometry_ok_def scroll_ok_def
      le_max_iff_disj)

lemma handleRouteChange_scroll_ok:
  assumes "geometry_ok ev" and "scroll_ok s"
  shows "scroll_ok (handleRouteChange cfg ev s)"
proof (cases "pathname (location ev) = currentPath s")
  case True
  with assms(2) show ?thesis by (simp add: handleRouteChange_same)
next
  case False
  with assms(1) show ?thesis
    by (simp add: handleRouteChange_change trackPageview_scroll_ok)
qed

lemma step_scroll_ok:
  assumes "geometry_ok (fst x)" and "scroll_ok s"
  shows "scroll_ok (step cfg x s)"
proof (cases x)
  case (Pair ev sg)
  with assms(1) have geo: "geometry_ok ev" by simp
  show ?thesis
  proof (cases sg)
    case PopState
    with Pair show ?thesis by (simp add: handleRouteChange_scroll_ok[OF geo assms(2)])
  next
    case (HistoryCall a)
    have "geometry_ok (ev\<lparr>location := l\<rparr>)" for l
      using geo by (simp add: geometry_ok_def)
    with HistoryCall Pair geo assms(2) show ?thesis
      by (cases a)
        (simp_all add: wrapped_history_def history_original_def handleRouteChange_scroll_ok)
  next
    case (PageShow persisted)
    with Pair assms(2) show ?thesis
      by (cases persisted) (simp_all add: handleRouteChange_scroll_ok[OF geo assms(2)])
  next
    case Unload
    with Pair assms(2) show ?thesis by (simp add: scroll_ok_def trackEngagement_scroll)
  next
    case VisibilityChange
    with Pair assms(2) show ?thesis
      by (simp add: scroll_ok_def handleVisibilityChange_def startEngagement_def
          pauseEngagement_def)
  next
    case Focus
    with Pair assms(2) show ?thesis by (simp add: scroll_ok_def startEngagement_def)
  next
    case Blur
    with Pair assms(2) show ?thesis by (simp add: scroll_ok_def pauseEngagement_def)
  next
    case Scroll
    with Pair assms(2) show ?thesis by (simp add: scroll_ok_def on_scroll_def)
  next
    case AnimationFrame
    with Pair assms(2) show ?thesis
      by (auto simp: scroll_ok_def on_frame_def Let_def)
  next
    case HeightPoll
    with Pair assms(2) geo show ?thesis
      by (simp add: scroll_ok_def poll_height_def getDocumentHeight_def geometry_ok_def
          le_max_iff_disj)
  qed
qed

text \<open>
  From \<^verbatim>\<open>init\<close> onwards, under browser geometry, the scroll percentage of every
  state the agent reaches lies between 0 and 100.
\<close>

lemma run_scroll_ok:
  assumes "\<forall>x \<in> set sigs. geometry_ok (fst x)" and "scroll_ok s"
  shows "scroll_ok (run cfg sigs s)"
  using assms
proof (induction sigs arbitrary: s)
  case Nil
  then show ?case by simp
next
  case (Cons x xs)
  then show ?case by (simp add: step_scroll_ok)
qed

lemma init_scroll_ok: "geometry_ok ev \<Longrightarrow> scroll_ok (init cfg ev t0)"
proof -
  assume geo: "geometry_ok ev"
  have "scroll_ok ((initial t0)\<lparr>liveProps := map_option props_object (customProps cfg)\<rparr>)"
    by (simp add: scroll_ok_def initial_def)
  then have "scroll_ok (handleRouteChange cfg ev
                ((initial t0)\<lparr>liveProps := map_option props_object (customProps cfg)\<rparr>))"
    by (rule handleRouteChange_scroll_ok[OF geo])
  then show ?thesis
    by (simp add: init_def Let_def scroll_ok_def startEngagement_def)
qed

lemma reachable_scroll_percentage:
  assumes "geometry_ok ev" and "\<forall>x \<in> set sigs. geometry_ok (fst x)"
  shows "0 \<le> getScrollPercentage (run cfg sigs (init cfg ev t0))
       \<and> getScrollPercentage (run cfg sigs (init cfg ev t0)) \<le> 100"
proof -
  have "scroll_ok (run cfg sigs (init cfg ev t0))"
    using assms by (simp add: run_scroll_ok init_scroll_ok)
  then show ?thesis
    using getScrollPercentage_range[of "run cfg sigs (init cfg ev t0)"]
    by (simp add: scroll_ok_def)
qed

end
